theory Spec2Isabelle
  imports Complex_Main "HOL-Library.Word"
begin

section \<open>MetaUI: the widget and layout core\<close>

text \<open>
  A shallow embedding of the widget tree of MetaUI: the value types of \<^verbatim>\<open>core.hpp\<close>, the
  base class of \<^verbatim>\<open>widget.hpp\<close>, the containers of \<^verbatim>\<open>layouts.hpp\<close> and the leaf widgets of
  \<^verbatim>\<open>widgets.hpp\<close>.

  Conventions of the embedding.
  \<^item> In the geometry of measuring and layout (sizes, rectangles, offsets, spacings) the C++
    type \<^verbatim>\<open>float\<close> is modelled by \<^typ>\<open>real\<close>: arithmetic is exact, there is no rounding,
    no overflow to infinity and no NaN, and every statement below about these results is a
    statement about this exact arithmetic. The minimum, the maximum and the value of a
    Slider are single-precision numbers, the type \<open>f32\<close> below, and
    \<^verbatim>\<open>Slider::updateValue\<close> computes with the rounded operations of that type.
  \<^item> A class is a record of the members it declares; an object of a derived class is the
    record of the base class \<^verbatim>\<open>Widget\<close> together with the record of the derived class.
    Member names lose their trailing underscore, and members of value types and of derived
    classes carry a short prefix, since record fields share one name space.
  \<^item> A \<^verbatim>\<open>std::function\<close> handler is modelled by a flag (is a handler installed?) and every
    call of a handler is appended to a log of \<open>callback\<close> values returned with the result.
    Handlers are taken not to touch the widget tree themselves.
  \<^item> Methods that mutate the object return the updated object.
\<close>

subsection \<open>Core value types (core.hpp)\<close>

type_synonym float = real

record Color =
  c_r :: float
  c_g :: float
  c_b :: float
  c_a :: float

record Point =
  p_x :: float
  p_y :: float

record Size =
  s_width :: float
  s_height :: float

record Rect =
  r_x :: float
  r_y :: float
  r_width :: float
  r_height :: float

definition mkColor :: "float \<Rightarrow> float \<Rightarrow> float \<Rightarrow> float \<Rightarrow> Color" where
  "mkColor r g b a = \<lparr>c_r = r, c_g = g, c_b = b, c_a = a\<rparr>"

definition mkPoint :: "float \<Rightarrow> float \<Rightarrow> Point" where
  "mkPoint px py = \<lparr>p_x = px, p_y = py\<rparr>"

definition mkSize :: "float \<Rightarrow> float \<Rightarrow> Size" where
  "mkSize w h = \<lparr>s_width = w, s_height = h\<rparr>"

definition mkRect :: "float \<Rightarrow> float \<Rightarrow> float \<Rightarrow> float \<Rightarrow> Rect" where
  "mkRect rx ry w h = \<lparr>r_x = rx, r_y = ry, r_width = w, r_height = h\<rparr>"

text \<open>\<^verbatim>\<open>Rect::contains(const Point&)\<close>: both edges are inclusive.\<close>

definition contains :: "Rect \<Rightarrow> Point \<Rightarrow> bool" where
  "contains r p \<longleftrightarrow>
     p_x p \<ge> r_x r \<and> p_x p \<le> r_x r + r_width r \<and> p_y p \<ge> r_y r \<and> p_y p \<le> r_y r + r_height r"

definition topLeft :: "Rect \<Rightarrow> Point" where
  "topLeft r = mkPoint (r_x r) (r_y r)"

record Padding =
  pad_top :: float
  pad_right :: float
  pad_bottom :: float
  pad_left :: float

definition mkPadding :: "float \<Rightarrow> float \<Rightarrow> float \<Rightarrow> float \<Rightarrow> Padding" where
  "mkPadding t r b l = \<lparr>pad_top = t, pad_right = r, pad_bottom = b, pad_left = l\<rparr>"

definition horizontal :: "Padding \<Rightarrow> float" where
  "horizontal p = pad_left p + pad_right p"

definition vertical :: "Padding \<Rightarrow> float" where
  "vertical p = pad_top p + pad_bottom p"

record BorderRadius =
  topLeftR :: float
  topRightR :: float
  bottomRightR :: float
  bottomLeftR :: float

datatype SizeConstraint = Fixed | Fill | Content | Percent

record SizeSpec =
  spec_constraint :: SizeConstraint
  spec_value :: float

datatype Alignment = Start | Center | End | Stretch

datatype Direction = Horizontal | Vertical

datatype MouseButton = MouseButton_Left | MouseButton_Right | MouseButton_Middle
  | MouseButton_Button4 | MouseButton_Button5

record MouseEvent =
  me_position :: Point
  me_delta :: Point
  me_button :: MouseButton
  me_pressed :: bool
  me_mods :: "32 word"

record KeyEvent =
  ke_keycode :: "32 word"
  ke_keysym :: "32 word"
  ke_pressed :: bool
  ke_mods :: "32 word"
  ke_text :: string

record ScrollEvent =
  se_position :: Point
  se_deltaX :: float
  se_deltaY :: float

datatype Align = Align_Left | Align_Center | Align_Right

datatype VAlign = VAlign_Top | VAlign_Middle | VAlign_Bottom

record TextStyle =
  fontFamily :: string
  fontSize :: float
  color :: Color
  bold :: bool
  italic :: bool
  lineHeight :: float
  align :: Align
  valign :: VAlign

record BoxStyle =
  background :: Color
  borderColor :: Color
  borderWidth :: float
  borderRadius :: BorderRadius
  padding :: Padding
  margin :: Padding
  hasShadow :: bool
  shadowColor :: Color
  shadowOffset :: Point
  shadowBlur :: float
  hasGradient :: bool
  gradientStart :: Color
  gradientEnd :: Color
  gradientAngle :: float

text \<open>\<^verbatim>\<open>std::max\<close> and \<^verbatim>\<open>std::clamp\<close> on \<^verbatim>\<open>float\<close>, with the comparisons the library makes.\<close>

definition std_max :: "float \<Rightarrow> float \<Rightarrow> float" where
  "std_max a b = (if a < b then b else a)"

definition std_clamp :: "float \<Rightarrow> float \<Rightarrow> float \<Rightarrow> float" where
  "std_clamp v lo hi = (if v < lo then lo else if hi < v then hi else v)"

subsection \<open>Single-precision arithmetic (IEEE 754 binary32)\<close>

text \<open>
  A value of the type \<^verbatim>\<open>float\<close> as the processor holds it: a finite number (\<open>Finite 0\<close> is
  the positive zero), the negative zero, an infinity or a NaN. The finite numbers are the
  multiples of \<^verbatim>\<open>2^-149\<close> with a significand of at most 24 bits, below \<^verbatim>\<open>2^128\<close>.

  Every operation returns the exact result rounded to the nearest such number, ties to the
  even significand, with one rounding for each operation (the default rounding mode, no
  fused multiply-add, no evaluation in a wider format). \<open>f32_quantize e a\<close> rounds a
  magnitude \<open>a\<close> whose multiple of \<^verbatim>\<open>2^-149\<close> has its leading bit at position \<open>e\<close>: the
  numbers around it are \<^verbatim>\<open>2^(e-23)\<close> of these units apart, and one unit apart up to the
  end of the first binade of the normal numbers. A rounded magnitude of \<^verbatim>\<open>2^128\<close> or more
  is an infinity, and a result that rounds to zero keeps its sign.
\<close>

datatype f32 = Finite real | MinusZero | PosInf | NegInf | NaN

fun ilog2 :: "nat \<Rightarrow> nat" where
  "ilog2 n = (if n < 2 then 0 else Suc (ilog2 (n div 2)))"

declare ilog2.simps [simp del]

definition f32_quantize :: "nat \<Rightarrow> real \<Rightarrow> real" where
  "f32_quantize e a =
     (let u = 2 ^ (e - 23);
          q = a * 2 ^ 149 / u;
          f = \<lfloor>q\<rfloor>;
          n = (if q - of_int f < 1 / 2 then f
               else if 1 / 2 < q - of_int f then f + 1
               else if even f then f else f + 1)
      in of_int n * u / 2 ^ 149)"

definition f32_round_mag :: "real \<Rightarrow> real" where
  "f32_round_mag a = f32_quantize (ilog2 (nat \<lfloor>a * 2 ^ 149\<rfloor>)) a"

definition f32_zero :: "bool \<Rightarrow> f32" where
  "f32_zero neg = (if neg then MinusZero else Finite 0)"

definition f32_inf :: "bool \<Rightarrow> f32" where
  "f32_inf neg = (if neg then NegInf else PosInf)"

text \<open>The rounding of a real number other than zero.\<close>

definition f32_round :: "real \<Rightarrow> f32" where
  "f32_round r =
     (let m = f32_round_mag \<bar>r\<bar>
      in if 2 ^ 128 \<le> m then f32_inf (r < 0)
         else if m = 0 then f32_zero (r < 0)
         else Finite (if r < 0 then - m else m))"

definition f32_val :: "f32 \<Rightarrow> real" where
  "f32_val x = (case x of Finite r \<Rightarrow> r | _ \<Rightarrow> 0)"

definition f32_sign :: "f32 \<Rightarrow> bool" where
  "f32_sign x =
     (case x of Finite r \<Rightarrow> r < 0 | MinusZero \<Rightarrow> True | NegInf \<Rightarrow> True | _ \<Rightarrow> False)"

definition f32_is_inf :: "f32 \<Rightarrow> bool" where
  "f32_is_inf x \<longleftrightarrow> x = PosInf \<or> x = NegInf"

definition f32_is_zero :: "f32 \<Rightarrow> bool" where
  "f32_is_zero x \<longleftrightarrow> x = Finite 0 \<or> x = MinusZero"

definition f32_neg :: "f32 \<Rightarrow> f32" where
  "f32_neg x =
     (case x of
        Finite r \<Rightarrow> (if r = 0 then MinusZero else Finite (- r))
      | MinusZero \<Rightarrow> Finite 0
      | PosInf \<Rightarrow> NegInf
      | NegInf \<Rightarrow> PosInf
      | NaN \<Rightarrow> NaN)"

text \<open>
  Addition, subtraction, multiplication and division. An exact sum of zero is the positive
  zero unless both operands are the negative zero; a product or quotient of zero, and an
  infinite one, has the sign of its operands combined.
\<close>

definition f32_add :: "f32 \<Rightarrow> f32 \<Rightarrow> f32" where
  "f32_add x y =
     (if x = NaN \<or> y = NaN then NaN
      else if (x = PosInf \<and> y = NegInf) \<or> (x = NegInf \<and> y = PosInf) then NaN
      else if x = PosInf \<or> y = PosInf then PosInf
      else if x = NegInf \<or> y = NegInf then NegInf
      else if f32_val x + f32_val y = 0
      then (if x = MinusZero \<and> y = MinusZero then MinusZero else Finite 0)
      else f32_round (f32_val x + f32_val y))"

definition f32_sub :: "f32 \<Rightarrow> f32 \<Rightarrow> f32" where
  "f32_sub x y = f32_add x (f32_neg y)"

definition f32_mul :: "f32 \<Rightarrow> f32 \<Rightarrow> f32" where
  "f32_mul x y =
     (if x = NaN \<or> y = NaN then NaN
      else if (f32_is_inf x \<and> f32_is_zero y) \<or> (f32_is_zero x \<and> f32_is_inf y) then NaN
      else if f32_is_inf x \<or> f32_is_inf y then f32_inf (f32_sign x \<noteq> f32_sign y)
      else if f32_val x * f32_val y = 0 then f32_zero (f32_sign x \<noteq> f32_sign y)
      else f32_round (f32_val x * f32_val y))"

definition f32_div :: "f32 \<Rightarrow> f32 \<Rightarrow> f32" where
  "f32_div x y =
     (if x = NaN \<or> y = NaN then NaN
      else if (f32_is_inf x \<and> f32_is_inf y) \<or> (f32_is_zero x \<and> f32_is_zero y) then NaN
      else if f32_is_inf x \<or> f32_is_zero y then f32_inf (f32_sign x \<noteq> f32_sign y)
      else if f32_is_inf y \<or> f32_is_zero x then f32_zero (f32_sign x \<noteq> f32_sign y)
      else f32_round (f32_val x / f32_val y))"

text \<open>The comparison \<^verbatim>\<open><\<close>, false whenever an operand is a NaN, and \<^verbatim>\<open>std::clamp\<close> with it.\<close>

definition f32_less :: "f32 \<Rightarrow> f32 \<Rightarrow> bool" where
  "f32_less x y =
     (if x = NaN \<or> y = NaN then False
      else if x = PosInf \<or> y = NegInf then False
      else if x = NegInf \<or> y = PosInf then True
      else f32_val x < f32_val y)"

definition f32_clamp :: "f32 \<Rightarrow> f32 \<Rightarrow> f32 \<Rightarrow> f32" where
  "f32_clamp v lo hi = (if f32_less v lo then lo else if f32_less hi v then hi else v)"

subsection \<open>The base class Widget (widget.hpp)\<close>

datatype callback =
    OnClick
  | OnHover bool
  | OnFocus bool
  | OnChange string
  | OnSubmit string
  | OnSliderChange f32
  | OnToggle bool

record Widget =
  widthSpec :: SizeSpec
  heightSpec :: SizeSpec
  style :: BoxStyle
  bounds :: Rect
  contentBounds :: Rect
  measuredSize :: Size
  visible :: bool
  enabled :: bool
  hovered :: bool
  focused :: bool
  onClickHandler :: bool
  onHoverHandler :: bool
  onFocusHandler :: bool

text \<open>
  \<^verbatim>\<open>Widget::handleMouseButton\<close>. The base handler changes no member; it returns whether the
  event is consumed and the handler calls it made.
\<close>

definition Widget_handleMouseButton :: "Widget \<Rightarrow> MouseEvent \<Rightarrow> bool \<times> callback list" where
  "Widget_handleMouseButton w event =
     (if \<not> enabled w then (False, [])
      else if me_pressed event \<and> me_button event = MouseButton_Left then
        (if contains (bounds w) (me_position event)
         then (True, if onClickHandler w then [OnClick] else [])
         else (False, []))
      else (False, []))"

text \<open>\<^verbatim>\<open>Widget::setFocus\<close>.\<close>

definition setFocus :: "Widget \<Rightarrow> bool \<Rightarrow> Widget \<times> callback list" where
  "setFocus w focus =
     (if focused w \<noteq> focus
      then (w\<lparr>focused := focus\<rparr>, if onFocusHandler w then [OnFocus focus] else [])
      else (w, []))"

subsection \<open>Leaf widgets (widgets.hpp)\<close>

record Text =
  t_text :: string
  t_textStyle :: TextStyle
  t_wrap :: bool
  t_maxWidth :: float

record Texture =
  tex_valid :: bool
  tex_width :: int
  tex_height :: int

record Image =
  img_imagePath :: string
  img_texture :: "Texture option"
  img_fit :: bool
  img_preserveAspect :: bool
  img_opacity :: float

record Button =
  btn_label :: string
  btn_textStyle :: TextStyle
  btn_wasHovered :: bool
  btn_pressed :: bool

record TextInput =
  ti_text :: string
  ti_placeholder :: string
  ti_textStyle :: TextStyle
  ti_cursorPos :: nat
  ti_onChangeHandler :: bool
  ti_onSubmitHandler :: bool

record Slider =
  sl_min :: f32
  sl_max :: f32
  sl_value :: f32
  sl_dragging :: bool
  sl_onChangeHandler :: bool

record Checkbox =
  cb_checked :: bool
  cb_onToggleHandler :: bool

record Label =
  lbl_text :: string
  lbl_textStyle :: TextStyle

subsubsection \<open>Button\<close>

text \<open>
  \<^verbatim>\<open>Button::handleMouseButton\<close>: the assignment to \<^verbatim>\<open>pressed_\<close> comes first, then the base
  handler decides the result.
\<close>

definition Button_handleMouseButton ::
  "Widget \<Rightarrow> Button \<Rightarrow> MouseEvent \<Rightarrow> bool \<times> Button \<times> callback list" where
  "Button_handleMouseButton w b event =
     (let b' = b\<lparr>btn_pressed := me_pressed event \<and> contains (bounds w) (me_position event)\<rparr>;
          (r, cbs) = Widget_handleMouseButton w event
      in (r, b', cbs))"

subsubsection \<open>TextInput\<close>

text \<open>
  \<^verbatim>\<open>std::string::erase(pos, len)\<close> and \<^verbatim>\<open>std::string::insert(pos, str)\<close> throw
  \<^verbatim>\<open>std::out_of_range\<close> when \<open>pos\<close> exceeds the length of the string; the exception is the
  left summand. A \<^verbatim>\<open>char\<close> of the string is a \<^typ>\<open>char\<close>, and \<^verbatim>\<open>size_t\<close> is \<^typ>\<open>nat\<close>
  (no string is long enough for the cursor to wrap).
\<close>

datatype error = OutOfRange

definition string_erase :: "string \<Rightarrow> nat \<Rightarrow> nat \<Rightarrow> error + string" where
  "string_erase s pos len =
     (if pos > length s then Inl OutOfRange else Inr (take pos s @ drop (pos + len) s))"

definition string_insert :: "string \<Rightarrow> nat \<Rightarrow> string \<Rightarrow> error + string" where
  "string_insert s pos str =
     (if pos > length s then Inl OutOfRange else Inr (take pos s @ str @ drop pos s))"

definition TextInput_handleKeyEvent ::
  "Widget \<Rightarrow> TextInput \<Rightarrow> KeyEvent \<Rightarrow> error + (bool \<times> TextInput \<times> callback list)" where
  "TextInput_handleKeyEvent w t event =
     (if \<not> focused w then Inr (False, t, [])
      else if ke_pressed event then
        (if ke_keycode event = 14 then
           (if ti_cursorPos t > 0 then
              (case string_erase (ti_text t) (ti_cursorPos t - 1) 1 of
                 Inl e \<Rightarrow> Inl e
               | Inr s \<Rightarrow>
                   Inr (True, t\<lparr>ti_text := s, ti_cursorPos := ti_cursorPos t - 1\<rparr>,
                        if ti_onChangeHandler t then [OnChange s] else []))
            else Inr (True, t, []))
         else if ke_keycode event = 111 then
           (if ti_cursorPos t < length (ti_text t) then
              (case string_erase (ti_text t) (ti_cursorPos t) 1 of
                 Inl e \<Rightarrow> Inl e
               | Inr s \<Rightarrow>
                   Inr (True, t\<lparr>ti_text := s\<rparr>,
                        if ti_onChangeHandler t then [OnChange s] else []))
            else Inr (True, t, []))
         else if ke_keycode event = 105 then
           (if ti_cursorPos t > 0
            then Inr (True, t\<lparr>ti_cursorPos := ti_cursorPos t - 1\<rparr>, [])
            else Inr (True, t, []))
         else if ke_keycode event = 106 then
           (if ti_cursorPos t < length (ti_text t)
            then Inr (True, t\<lparr>ti_cursorPos := ti_cursorPos t + 1\<rparr>, [])
            else Inr (True, t, []))
         else if ke_keycode event = 28 then
           Inr (True, t, if ti_onSubmitHandler t then [OnSubmit (ti_text t)] else [])
         else if ke_text event \<noteq> [] then
           (case string_insert (ti_text t) (ti_cursorPos t) (ke_text event) of
              Inl e \<Rightarrow> Inl e
            | Inr s \<Rightarrow>
                Inr (True,
                     t\<lparr>ti_text := s, ti_cursorPos := ti_cursorPos t + length (ke_text event)\<rparr>,
                     if ti_onChangeHandler t then [OnChange s] else []))
         else Inr (True, t, []))
      else Inr (True, t, []))"

text \<open>
  The host hands key events to the widget one at a time; \<open>dispatchKeys\<close> is that loop for
  a list of events, stopping at the first exception and collecting the handler calls.
\<close>

fun dispatchKeys ::
  "Widget \<Rightarrow> TextInput \<Rightarrow> KeyEvent list \<Rightarrow> error + (TextInput \<times> callback list)" where
  "dispatchKeys w t [] = Inr (t, [])"
| "dispatchKeys w t (e # es) =
     (case TextInput_handleKeyEvent w t e of
        Inl err \<Rightarrow> Inl err
      | Inr (r, t', cbs) \<Rightarrow>
          (case dispatchKeys w t' es of
             Inl err \<Rightarrow> Inl err
           | Inr (t'', cbs') \<Rightarrow> Inr (t'', cbs @ cbs')))"

text \<open>The class invariant of TextInput: the cursor is an index into the buffer or its end.\<close>

definition TextInput_inv :: "TextInput \<Rightarrow> bool" where
  "TextInput_inv t \<longleftrightarrow> ti_cursorPos t \<le> length (ti_text t)"

subsubsection \<open>Slider\<close>

text \<open>
  \<^verbatim>\<open>Slider::updateValue\<close>, in single precision: a subtraction and a division for
  \<^verbatim>\<open>normalized\<close>, then a subtraction, a multiplication and an addition under
  \<^verbatim>\<open>std::clamp\<close>. The pointer coordinate and the bounds come from the geometry, where they
  are finite numbers.
\<close>

definition Slider_updateValue :: "Widget \<Rightarrow> Slider \<Rightarrow> float \<Rightarrow> Slider \<times> callback list" where
  "Slider_updateValue w s mouseX =
     (let normalized =
            f32_div (f32_sub (Finite mouseX) (Finite (r_x (bounds w))))
                    (Finite (r_width (bounds w)));
          v = f32_clamp
                (f32_add (sl_min s) (f32_mul normalized (f32_sub (sl_max s) (sl_min s))))
                (sl_min s) (sl_max s)
      in (s\<lparr>sl_value := v\<rparr>, if sl_onChangeHandler s then [OnSliderChange v] else []))"

subsubsection \<open>TextInput, Slider and Checkbox: mouse buttons\<close>

definition TextInput_handleMouseButton ::
  "Widget \<Rightarrow> MouseEvent \<Rightarrow> bool \<times> Widget \<times> callback list" where
  "TextInput_handleMouseButton w event =
     (case Widget_handleMouseButton w event of (clicked, cbs) \<Rightarrow>
        (if clicked \<and> me_pressed event
         then (case setFocus w True of (w', cbs') \<Rightarrow> (clicked, w', cbs @ cbs'))
         else (clicked, w, cbs)))"

definition Slider_handleMouseButton ::
  "Widget \<Rightarrow> Slider \<Rightarrow> MouseEvent \<Rightarrow> bool \<times> Slider \<times> callback list" where
  "Slider_handleMouseButton w s event =
     (if me_button event = MouseButton_Left then
        (if me_pressed event \<and> contains (bounds w) (me_position event) then
           (case Slider_updateValue w (s\<lparr>sl_dragging := True\<rparr>) (p_x (me_position event)) of
              (s', cbs) \<Rightarrow> (True, s', cbs))
         else if \<not> me_pressed event then (False, s\<lparr>sl_dragging := False\<rparr>, [])
         else (False, s, []))
      else (False, s, []))"

definition Checkbox_handleMouseButton ::
  "Widget \<Rightarrow> Checkbox \<Rightarrow> MouseEvent \<Rightarrow> bool \<times> Checkbox \<times> callback list" where
  "Checkbox_handleMouseButton w c event =
     (if me_pressed event \<and> me_button event = MouseButton_Left then
        (if contains (bounds w) (me_position event)
         then (True, c\<lparr>cb_checked := \<not> cb_checked c\<rparr>,
               if cb_onToggleHandler c then [OnToggle (\<not> cb_checked c)] else [])
         else (False, c, []))
      else (False, c, []))"

subsection \<open>Containers (widget.hpp, layouts.hpp) and the widget tree\<close>

text \<open>
  A container owns its children; a widget tree is a \<open>widget\<close>: a leaf with its class, or a
  container with its class and the list \<^verbatim>\<open>children_\<close> in insertion order. Virtual
  dispatch is the case distinction on the class. Of the leaf classes only the members read
  by the functions modelled here are kept.
\<close>


record Box =
  box_direction :: Direction
  box_spacing :: float
  box_alignment :: Alignment
  box_crossAlignment :: Alignment

record Stack =
  st_horizontalAlign :: Alignment
  st_verticalAlign :: Alignment

record Grid =
  grid_columns :: int
  grid_spacing :: float
  grid_cellSize :: Size

record ScrollView =
  sv_scrollDir :: Direction
  sv_scrollOffset :: Point

datatype Position = Position_Left | Position_Right | Position_Top | Position_Bottom

record Sidebar =
  sb_position :: Position
  sb_sidebarSize :: float

datatype leaf_kind =
    KWidget | KText Text | KImage Image | KIcon | KButton Button | KTextInput TextInput
  | KSlider Slider | KCheckbox Checkbox | KProgressBar | KSpacer | KDivider | KLabel Label

datatype container_kind =
    KContainer | KBox Box | KStack Stack | KGrid Grid | KScrollView ScrollView | KSidebar Sidebar

datatype widget =
    Leaf Widget leaf_kind
  | Node Widget container_kind "widget list"

fun base :: "widget \<Rightarrow> Widget" where
  "base (Leaf w k) = w"
| "base (Node w k cs) = w"

fun set_base :: "widget \<Rightarrow> Widget \<Rightarrow> widget" where
  "set_base (Leaf w k) w' = Leaf w' k"
| "set_base (Node w k cs) w' = Node w' k cs"

fun nodes :: "widget \<Rightarrow> nat" where
  "nodes (Leaf w k) = 1"
| "nodes (Node w k cs) = 1 + sum_list (map nodes cs)"


definition leaf_measureContent :: "Widget \<Rightarrow> leaf_kind \<Rightarrow> Size \<Rightarrow> Size" where
  "leaf_measureContent w k available =
     (case k of
        KText t \<Rightarrow>
          (if t_text t = [] then mkSize 0 (fontSize (t_textStyle t))
           else mkSize (real (length (t_text t)) * fontSize (t_textStyle t) * 0.6)
                       (fontSize (t_textStyle t) * lineHeight (t_textStyle t)))
      | KImage i \<Rightarrow>
          (if spec_constraint (widthSpec w) = Fixed \<and> spec_constraint (heightSpec w) = Fixed
           then mkSize (spec_value (widthSpec w)) (spec_value (heightSpec w))
           else (case img_texture i of
                   Some tex \<Rightarrow>
                     (if tex_valid tex
                      then mkSize (real_of_int (tex_width tex)) (real_of_int (tex_height tex))
                      else mkSize 100 100)
                 | None \<Rightarrow> mkSize 100 100))
      | KButton b \<Rightarrow>
          mkSize (real (length (btn_label b)) * fontSize (btn_textStyle b) * 0.6 + 40)
                 (fontSize (btn_textStyle b) * 1.4 + 20)
      | KTextInput t \<Rightarrow> mkSize 200 (fontSize (ti_textStyle t) * 1.5)
      | KSlider s \<Rightarrow> mkSize 200 20
      | KCheckbox c \<Rightarrow> mkSize 20 20
      | KProgressBar \<Rightarrow> mkSize 200 10
      | KLabel l \<Rightarrow>
          mkSize (real (length (lbl_text l)) * fontSize (lbl_textStyle l) * 0.6)
                 (fontSize (lbl_textStyle l) * 1.4)
      | _ \<Rightarrow> mkSize 0 0)"

definition Grid_measureContent :: "Grid \<Rightarrow> nat \<Rightarrow> Size \<Rightarrow> Size" where
  "Grid_measureContent g n available =
     (if n = 0 \<or> grid_columns g \<le> 0 then mkSize 0 0
      else
        let rows = (int n + grid_columns g - 1) div grid_columns g;
            cellWidth =
              (if s_width (grid_cellSize g) > 0 then s_width (grid_cellSize g)
               else (s_width available - grid_spacing g * real_of_int (grid_columns g - 1))
                      / real_of_int (grid_columns g));
            cellHeight =
              (if s_height (grid_cellSize g) > 0 then s_height (grid_cellSize g) else cellWidth)
        in mkSize
             (cellWidth * real_of_int (grid_columns g)
                + grid_spacing g * real_of_int (grid_columns g - 1))
             (cellHeight * real_of_int rows + grid_spacing g * real_of_int (rows - 1)))"

definition applyMargin :: "Widget \<Rightarrow> Size \<Rightarrow> Size" where
  "applyMargin w available = available\<lparr>
     s_width := s_width available - horizontal (margin (style w)),
     s_height := s_height available - vertical (margin (style w))\<rparr>"

definition Box_totalSpacing :: "Box \<Rightarrow> widget list \<Rightarrow> float" where
  "Box_totalSpacing b cs = box_spacing b * real (length cs - 1)"

function Widget_measure :: "widget \<Rightarrow> Size \<Rightarrow> Size \<times> widget"
  and resolveWidth :: "widget \<Rightarrow> Size \<Rightarrow> float \<times> widget"
  and resolveHeight :: "widget \<Rightarrow> Size \<Rightarrow> float \<times> widget"
  and measureContent :: "widget \<Rightarrow> Size \<Rightarrow> Size \<times> widget"
  and Box_measureH :: "widget list \<Rightarrow> Size \<Rightarrow> Size \<Rightarrow> Size \<times> widget list"
  and Box_measureV :: "widget list \<Rightarrow> Size \<Rightarrow> Size \<Rightarrow> Size \<times> widget list"
  and Stack_measure :: "widget list \<Rightarrow> Size \<Rightarrow> Size \<Rightarrow> Size \<times> widget list"
where
  "Widget_measure w available =
     (if \<not> visible (base w) then (mkSize 0 0, w)
      else
        (case resolveWidth w (applyMargin (base w) available) of (rw, w1) \<Rightarrow>
        (case resolveHeight w1 (applyMargin (base w) available) of (rh, w2) \<Rightarrow>
           (mkSize rw rh, set_base w2 ((base w2)\<lparr>measuredSize := mkSize rw rh\<rparr>)))))"
| "resolveWidth w avail =
     (case spec_constraint (widthSpec (base w)) of
        Fixed \<Rightarrow> (spec_value (widthSpec (base w)), w)
      | Fill \<Rightarrow> (s_width avail, w)
      | Percent \<Rightarrow> (s_width avail * (spec_value (widthSpec (base w)) / 100), w)
      | Content \<Rightarrow>
          (case measureContent w avail of (s, w') \<Rightarrow>
             (s_width s + horizontal (padding (style (base w))), w')))"
| "resolveHeight w avail =
     (case spec_constraint (heightSpec (base w)) of
        Fixed \<Rightarrow> (spec_value (heightSpec (base w)), w)
      | Fill \<Rightarrow> (s_height avail, w)
      | Percent \<Rightarrow> (s_height avail * (spec_value (heightSpec (base w)) / 100), w)
      | Content \<Rightarrow>
          (case measureContent w avail of (s, w') \<Rightarrow>
             (s_height s + vertical (padding (style (base w))), w')))"
| "measureContent (Leaf w k) available = (leaf_measureContent w k available, Leaf w k)"
| "measureContent (Node w k cs) available =
     (case k of
        KContainer \<Rightarrow> (mkSize 0 0, Node w k cs)
      | KBox b \<Rightarrow>
          (if cs = [] then (mkSize 0 0, Node w k cs)
           else if box_direction b = Horizontal then
             (case Box_measureH cs
                     (available\<lparr>s_width := s_width available - Box_totalSpacing b cs\<rparr>)
                     (mkSize 0 0) of
                (result, cs') \<Rightarrow>
                  (result\<lparr>s_width := s_width result + Box_totalSpacing b cs\<rparr>, Node w k cs'))
           else
             (case Box_measureV cs
                     (available\<lparr>s_height := s_height available - Box_totalSpacing b cs\<rparr>)
                     (mkSize 0 0) of
                (result, cs') \<Rightarrow>
                  (result\<lparr>s_height := s_height result + Box_totalSpacing b cs\<rparr>, Node w k cs')))
      | KStack s \<Rightarrow>
          (case Stack_measure cs available (mkSize 0 0) of
             (result, cs') \<Rightarrow> (result, Node w k cs'))
      | KGrid g \<Rightarrow> (Grid_measureContent g (length cs) available, Node w k cs)
      | KScrollView s \<Rightarrow>
          (case cs of
             [] \<Rightarrow> (mkSize 0 0, Node w k cs)
           | c # rest \<Rightarrow>
               (if sv_scrollDir s = Horizontal then
                  (case Widget_measure c (mkSize 1000000000 (s_height available)) of
                     (sz, c') \<Rightarrow>
                       (mkSize (s_width sz) (s_height available), Node w k (c' # rest)))
                else
                  (case Widget_measure c (mkSize (s_width available) 1000000000) of
                     (sz, c') \<Rightarrow>
                       (mkSize (s_width available) (s_height sz), Node w k (c' # rest)))))
      | KSidebar s \<Rightarrow> (mkSize 0 0, Node w k cs))"
| "Box_measureH [] childAvailable result = (result, [])"
| "Box_measureH (c # cs) childAvailable result =
     (case Widget_measure c childAvailable of (childSize, c') \<Rightarrow>
     (case Box_measureH cs childAvailable
             (result\<lparr>s_width := s_width result + s_width childSize,
                     s_height := std_max (s_height result) (s_height childSize)\<rparr>) of
        (result', cs') \<Rightarrow> (result', c' # cs')))"
| "Box_measureV [] childAvailable result = (result, [])"
| "Box_measureV (c # cs) childAvailable result =
     (case Widget_measure c childAvailable of (childSize, c') \<Rightarrow>
     (case Box_measureV cs childAvailable
             (result\<lparr>s_height := s_height result + s_height childSize,
                     s_width := std_max (s_width result) (s_width childSize)\<rparr>) of
        (result', cs') \<Rightarrow> (result', c' # cs')))"
| "Stack_measure [] available result = (result, [])"
| "Stack_measure (c # cs) available result =
     (case Widget_measure c available of (childSize, c') \<Rightarrow>
     (case Stack_measure cs available
             (result\<lparr>s_width := std_max (s_width result) (s_width childSize),
                     s_height := std_max (s_height result) (s_height childSize)\<rparr>) of
        (result', cs') \<Rightarrow> (result', c' # cs')))"
  by pat_completeness auto

lemma nodes_pos [simp]: "0 < nodes w"
  by (cases w) simp_all

lemma nodes_set_base [simp]: "nodes (set_base w b) = nodes w"
  by (cases w) simp_all

abbreviation (input) "measure_dom \<equiv>
  Widget_measure_resolveWidth_resolveHeight_measureContent_Box_measureH_Box_measureV_Stack_measure_dom"

lemma measure_nodes_partial:
  "measure_dom (Inl (Inl (w, a))) \<Longrightarrow> nodes (snd (Widget_measure w a)) = nodes w"
  "measure_dom (Inl (Inr (Inl (w1, a1)))) \<Longrightarrow> nodes (snd (resolveWidth w1 a1)) = nodes w1"
  "measure_dom (Inl (Inr (Inr (w2, a2)))) \<Longrightarrow> nodes (snd (resolveHeight w2 a2)) = nodes w2"
  "measure_dom (Inr (Inl (Inl (w3, a3)))) \<Longrightarrow> nodes (snd (measureContent w3 a3)) = nodes w3"
  "measure_dom (Inr (Inl (Inr (cs, ca, r)))) \<Longrightarrow>
     map nodes (snd (Box_measureH cs ca r)) = map nodes cs"
  "measure_dom (Inr (Inr (Inl (cs1, ca1, r1)))) \<Longrightarrow>
     map nodes (snd (Box_measureV cs1 ca1 r1)) = map nodes cs1"
  "measure_dom (Inr (Inr (Inr (cs2, ca2, r2)))) \<Longrightarrow>
     map nodes (snd (Stack_measure cs2 ca2 r2)) = map nodes cs2"
proof (induction w a and w1 a1 and w2 a2 and w3 a3 and cs ca r and cs1 ca1 r1 and cs2 ca2 r2
    rule: Widget_measure_resolveWidth_resolveHeight_measureContent_Box_measureH_Box_measureV_Stack_measure.pinduct)
  case (1 w available)
  show ?case
  proof (cases "visible (base w)")
    case False
    then show ?thesis using "1.hyps" by (simp add: Widget_measure.psimps)
  next
    case True
    obtain rw w1 where rw: "resolveWidth w (applyMargin (base w) available) = (rw, w1)"
      by (cases "resolveWidth w (applyMargin (base w) available)")
    obtain rh w2 where rh: "resolveHeight w1 (applyMargin (base w) available) = (rh, w2)"
      by (cases "resolveHeight w1 (applyMargin (base w) available)")
    have "nodes w1 = nodes w" using "1.IH"(1) True rw by simp
    moreover have "nodes w2 = nodes w1"
      using "1.IH"(2)[OF _ rw[symmetric]] True rh by simp
    ultimately show ?thesis
      using "1.hyps" True rw rh by (simp add: Widget_measure.psimps)
  qed
next
  case (2 w avail)
  then show ?case
    by (auto simp: resolveWidth.psimps split: SizeConstraint.splits prod.splits)
next
  case (3 w avail)
  then show ?case
    by (auto simp: resolveHeight.psimps split: SizeConstraint.splits prod.splits)
next
  case (4 w k available)
  then show ?case by (simp add: measureContent.psimps)
next
  case (5 w k cs available)
  then show ?case
    by (auto simp: measureContent.psimps split: container_kind.splits prod.splits list.splits
             dest!: arg_cong[where f = snd])
next
  case (6 childAvailable result)
  then show ?case by (simp add: Box_measureH.psimps)
next
  case (7 c cs childAvailable result)
  obtain sz c' where m: "Widget_measure c childAvailable = (sz, c')"
    by (cases "Widget_measure c childAvailable")
  show ?case
    using "7.hyps" "7.IH"(1) "7.IH"(2)[OF m[symmetric]] m
    by (simp add: Box_measureH.psimps split_beta)
next
  case (8 childAvailable result)
  then show ?case by (simp add: Box_measureV.psimps)
next
  case (9 c cs childAvailable result)
  obtain sz c' where m: "Widget_measure c childAvailable = (sz, c')"
    by (cases "Widget_measure c childAvailable")
  show ?case
    using "9.hyps" "9.IH"(1) "9.IH"(2)[OF m[symmetric]] m
    by (simp add: Box_measureV.psimps split_beta)
next
  case (10 available result)
  then show ?case by (simp add: Stack_measure.psimps)
next
  case (11 c cs available result)
  obtain sz c' where m: "Widget_measure c available = (sz, c')"
    by (cases "Widget_measure c available")
  show ?case
    using "11.hyps" "11.IH"(1) "11.IH"(2)[OF m[symmetric]] m
    by (simp add: Stack_measure.psimps split_beta)
qed

termination Widget_measure
  apply (relation "Wellfounded.measure (\<lambda>x. case x of
      Inl (Inl (w, a)) \<Rightarrow> 5 * nodes w + 2
    | Inl (Inr (Inl (w, a))) \<Rightarrow> 5 * nodes w + 1
    | Inl (Inr (Inr (w, a))) \<Rightarrow> 5 * nodes w + 1
    | Inr (Inl (Inl (w, a))) \<Rightarrow> 5 * nodes w
    | Inr (Inl (Inr (cs, a, r))) \<Rightarrow> 5 * sum_list (map nodes cs) + 3
    | Inr (Inr (Inl (cs, a, r))) \<Rightarrow> 5 * sum_list (map nodes cs) + 3
    | Inr (Inr (Inr (cs, a, r))) \<Rightarrow> 5 * sum_list (map nodes cs) + 3)")
  apply auto
  subgoal premises p for w available a b
    using measure_nodes_partial(2)[OF p(3)] p(2)[symmetric] by simp
  done


declare Widget_measure.simps [simp del] resolveWidth.simps [simp del] resolveHeight.simps [simp del]

text \<open>
  \<open>clearMeasured\<close> resets every cached \<^verbatim>\<open>measuredSize_\<close> of a tree: two trees with the same
  image differ in those caches only.
\<close>

fun clearMeasured :: "widget \<Rightarrow> widget" where
  "clearMeasured (Leaf w k) = Leaf (w\<lparr>measuredSize := mkSize 0 0\<rparr>) k"
| "clearMeasured (Node w k cs) = Node (w\<lparr>measuredSize := mkSize 0 0\<rparr>) k (map clearMeasured cs)"

lemma nodes_clearMeasured [simp]: "nodes (clearMeasured w) = nodes w"
  by (induction w) (simp_all add: comp_def cong: map_cong)

lemma clearMeasured_set_base [simp]:
  "clearMeasured (set_base w ((base w)\<lparr>measuredSize := sz\<rparr>)) = clearMeasured w"
  by (cases w) simp_all

lemma measure_clearMeasured:
  "clearMeasured (snd (Widget_measure w a)) = clearMeasured w"
  "clearMeasured (snd (resolveWidth w1 a1)) = clearMeasured w1"
  "clearMeasured (snd (resolveHeight w2 a2)) = clearMeasured w2"
  "clearMeasured (snd (measureContent w3 a3)) = clearMeasured w3"
  "map clearMeasured (snd (Box_measureH cs ca r)) = map clearMeasured cs"
  "map clearMeasured (snd (Box_measureV cs1 ca1 r1)) = map clearMeasured cs1"
  "map clearMeasured (snd (Stack_measure cs2 ca2 r2)) = map clearMeasured cs2"
proof (induction w a and w1 a1 and w2 a2 and w3 a3 and cs ca r and cs1 ca1 r1 and cs2 ca2 r2
    rule: Widget_measure_resolveWidth_resolveHeight_measureContent_Box_measureH_Box_measureV_Stack_measure.induct)
  case (1 w available)
  show ?case
  proof (cases "visible (base w)")
    case False
    then show ?thesis by (simp add: Widget_measure.simps)
  next
    case True
    obtain rw w1 where rw: "resolveWidth w (applyMargin (base w) available) = (rw, w1)"
      by (cases "resolveWidth w (applyMargin (base w) available)")
    obtain rh w2 where rh: "resolveHeight w1 (applyMargin (base w) available) = (rh, w2)"
      by (cases "resolveHeight w1 (applyMargin (base w) available)")
    have "clearMeasured w1 = clearMeasured w" using "1.IH"(1) True rw by simp
    moreover have "clearMeasured w2 = clearMeasured w1"
      using "1.IH"(2)[OF _ rw[symmetric]] True rh by simp
    ultimately show ?thesis
      using True rw rh by (simp add: Widget_measure.simps)
  qed
next
  case (2 w avail)
  then show ?case
    by (auto simp: resolveWidth.simps split: SizeConstraint.splits prod.splits)
next
  case (3 w avail)
  then show ?case
    by (auto simp: resolveHeight.simps split: SizeConstraint.splits prod.splits)
next
  case (4 w k available)
  then show ?case by simp
next
  case (5 w k cs available)
  then show ?case
    by (auto split: container_kind.splits prod.splits list.splits dest!: arg_cong[where f = snd])
next
  case (6 childAvailable result)
  then show ?case by simp
next
  case (7 c cs childAvailable result)
  obtain sz c' where m: "Widget_measure c childAvailable = (sz, c')"
    by (cases "Widget_measure c childAvailable")
  show ?case
    using "7.IH"(1) "7.IH"(2)[OF m[symmetric]] m by (simp add: split_beta)
next
  case (8 childAvailable result)
  then show ?case by simp
next
  case (9 c cs childAvailable result)
  obtain sz c' where m: "Widget_measure c childAvailable = (sz, c')"
    by (cases "Widget_measure c childAvailable")
  show ?case
    using "9.IH"(1) "9.IH"(2)[OF m[symmetric]] m by (simp add: split_beta)
next
  case (10 available result)
  then show ?case by simp
next
  case (11 c cs available result)
  obtain sz c' where m: "Widget_measure c available = (sz, c')"
    by (cases "Widget_measure c available")
  show ?case
    using "11.IH"(1) "11.IH"(2)[OF m[symmetric]] m by (simp add: split_beta)
qed

lemma Widget_measure_nodes [simp]: "nodes (snd (Widget_measure w a)) = nodes w"
  using measure_clearMeasured(1)[of w a] nodes_clearMeasured by metis

lemma Widget_measure_nodes_eq: "(sz, w') = Widget_measure w a \<Longrightarrow> nodes w' = nodes w"
  using Widget_measure_nodes[of w a] by (metis snd_conv)

text \<open>The first loop of \<^verbatim>\<open>Box::layoutChildren\<close>: every child is measured, the sizes are collected.\<close>

fun Box_measureChildren :: "widget list \<Rightarrow> Size \<Rightarrow> Size list \<times> widget list" where
  "Box_measureChildren [] available = ([], [])"
| "Box_measureChildren (c # cs) available =
     (case Widget_measure c available of (childSize, c') \<Rightarrow>
     (case Box_measureChildren cs available of (childSizes, cs') \<Rightarrow>
        (childSize # childSizes, c' # cs')))"

lemma Box_measureChildren_nodes [simp]:
  "map nodes (snd (Box_measureChildren cs a)) = map nodes cs"
  by (induction cs) (simp_all add: split_beta)

lemma Box_measureChildren_nodes_eq:
  "(szs, cs') = Box_measureChildren cs a \<Longrightarrow> map nodes cs' = map nodes cs"
  using Box_measureChildren_nodes[of cs a] by (metis snd_conv)

definition Widget_setBounds :: "Widget \<Rightarrow> Rect \<Rightarrow> Widget" where
  "Widget_setBounds w rect = w\<lparr>
     bounds := rect,
     contentBounds := mkRect
       (r_x rect + pad_left (padding (style w)))
       (r_y rect + pad_top (padding (style w)))
       (r_width rect - horizontal (padding (style w)))
       (r_height rect - vertical (padding (style w)))\<rparr>"

definition layoutHorizontal_start :: "Widget \<Rightarrow> Box \<Rightarrow> Size list \<Rightarrow> float \<Rightarrow> float" where
  "layoutHorizontal_start w b sizes totalSpacing =
     (let totalWidth = foldl (\<lambda>t sz. t + s_width sz) 0 sizes + totalSpacing;
          x = r_x (contentBounds w)
      in if box_alignment b = Center then x + (r_width (contentBounds w) - totalWidth) / 2
         else if box_alignment b = End then x + (r_width (contentBounds w) - totalWidth)
         else x)"

definition layoutHorizontal_rect :: "Widget \<Rightarrow> Box \<Rightarrow> Size \<Rightarrow> float \<Rightarrow> Rect" where
  "layoutHorizontal_rect w b sz x =
     (let y = r_y (contentBounds w);
          height = s_height sz
      in if box_crossAlignment b = Center
         then mkRect x (y + (r_height (contentBounds w) - height) / 2) (s_width sz) height
         else if box_crossAlignment b = End
         then mkRect x (y + (r_height (contentBounds w) - height)) (s_width sz) height
         else if box_crossAlignment b = Stretch
         then mkRect x y (s_width sz) (r_height (contentBounds w))
         else mkRect x y (s_width sz) height)"

definition layoutVertical_start :: "Widget \<Rightarrow> Box \<Rightarrow> Size list \<Rightarrow> float \<Rightarrow> float" where
  "layoutVertical_start w b sizes totalSpacing =
     (let totalHeight = foldl (\<lambda>t sz. t + s_height sz) 0 sizes + totalSpacing;
          y = r_y (contentBounds w)
      in if box_alignment b = Center then y + (r_height (contentBounds w) - totalHeight) / 2
         else if box_alignment b = End then y + (r_height (contentBounds w) - totalHeight)
         else y)"

definition layoutVertical_rect :: "Widget \<Rightarrow> Box \<Rightarrow> Size \<Rightarrow> float \<Rightarrow> Rect" where
  "layoutVertical_rect w b sz y =
     (let x = r_x (contentBounds w);
          width = s_width sz
      in if box_crossAlignment b = Center
         then mkRect (x + (r_width (contentBounds w) - width) / 2) y width (s_height sz)
         else if box_crossAlignment b = End
         then mkRect (x + (r_width (contentBounds w) - width)) y width (s_height sz)
         else if box_crossAlignment b = Stretch
         then mkRect x y (r_width (contentBounds w)) (s_height sz)
         else mkRect x y width (s_height sz))"

definition Stack_rect :: "Widget \<Rightarrow> Stack \<Rightarrow> Size \<Rightarrow> Rect" where
  "Stack_rect w s childSize =
     (let x = r_x (contentBounds w);
          y = r_y (contentBounds w);
          x' = (if st_horizontalAlign s = Center
                then x + (r_width (contentBounds w) - s_width childSize) / 2
                else if st_horizontalAlign s = End
                then x + (r_width (contentBounds w) - s_width childSize)
                else x);
          y' = (if st_verticalAlign s = Center
                then y + (r_height (contentBounds w) - s_height childSize) / 2
                else if st_verticalAlign s = End
                then y + (r_height (contentBounds w) - s_height childSize)
                else y)
      in mkRect x' y' (s_width childSize) (s_height childSize))"

definition Grid_cellWidth :: "Widget \<Rightarrow> Grid \<Rightarrow> float" where
  "Grid_cellWidth w g =
     (if s_width (grid_cellSize g) > 0 then s_width (grid_cellSize g)
      else (r_width (contentBounds w) - grid_spacing g * real_of_int (grid_columns g - 1))
             / real_of_int (grid_columns g))"

definition Grid_cellHeight :: "Widget \<Rightarrow> Grid \<Rightarrow> float" where
  "Grid_cellHeight w g =
     (if s_height (grid_cellSize g) > 0 then s_height (grid_cellSize g) else Grid_cellWidth w g)"

definition Grid_rect :: "Widget \<Rightarrow> Grid \<Rightarrow> int \<Rightarrow> int \<Rightarrow> Rect" where
  "Grid_rect w g row col =
     mkRect (r_x (contentBounds w) + real_of_int col * (Grid_cellWidth w g + grid_spacing g))
            (r_y (contentBounds w) + real_of_int row * (Grid_cellHeight w g + grid_spacing g))
            (Grid_cellWidth w g) (Grid_cellHeight w g)"

definition ScrollView_available :: "Widget \<Rightarrow> ScrollView \<Rightarrow> Size" where
  "ScrollView_available w s =
     mkSize (if sv_scrollDir s = Horizontal then 1000000000 else r_width (contentBounds w))
            (if sv_scrollDir s = Vertical then 1000000000 else r_height (contentBounds w))"

definition ScrollView_rect :: "Widget \<Rightarrow> ScrollView \<Rightarrow> Size \<Rightarrow> Rect" where
  "ScrollView_rect w s childSize =
     mkRect (r_x (contentBounds w) - p_x (sv_scrollOffset s))
            (r_y (contentBounds w) - p_y (sv_scrollOffset s))
            (s_width childSize) (s_height childSize)"

definition Sidebar_sidebarRect :: "Widget \<Rightarrow> Sidebar \<Rightarrow> Rect" where
  "Sidebar_sidebarRect w s =
     (let cb = contentBounds w in
      case sb_position s of
        Position_Left \<Rightarrow> mkRect (r_x cb) (r_y cb) (sb_sidebarSize s) (r_height cb)
      | Position_Right \<Rightarrow>
          mkRect (r_x cb + r_width cb - sb_sidebarSize s) (r_y cb) (sb_sidebarSize s) (r_height cb)
      | Position_Top \<Rightarrow> mkRect (r_x cb) (r_y cb) (r_width cb) (sb_sidebarSize s)
      | Position_Bottom \<Rightarrow>
          mkRect (r_x cb) (r_y cb + r_height cb - sb_sidebarSize s) (r_width cb) (sb_sidebarSize s))"

definition Sidebar_contentRect :: "Widget \<Rightarrow> Sidebar \<Rightarrow> Rect" where
  "Sidebar_contentRect w s =
     (let cb = contentBounds w in
      case sb_position s of
        Position_Left \<Rightarrow>
          mkRect (r_x cb + sb_sidebarSize s) (r_y cb) (r_width cb - sb_sidebarSize s) (r_height cb)
      | Position_Right \<Rightarrow> mkRect (r_x cb) (r_y cb) (r_width cb - sb_sidebarSize s) (r_height cb)
      | Position_Top \<Rightarrow>
          mkRect (r_x cb) (r_y cb + sb_sidebarSize s) (r_width cb) (r_height cb - sb_sidebarSize s)
      | Position_Bottom \<Rightarrow>
          mkRect (r_x cb) (r_y cb) (r_width cb) (r_height cb - sb_sidebarSize s))"

function layout :: "widget \<Rightarrow> Rect \<Rightarrow> widget"
  and layoutChildren :: "Widget \<Rightarrow> container_kind \<Rightarrow> widget list \<Rightarrow> widget list"
  and layoutHorizontal :: "Widget \<Rightarrow> Box \<Rightarrow> widget list \<Rightarrow> Size list \<Rightarrow> float \<Rightarrow> widget list"
  and layoutVertical :: "Widget \<Rightarrow> Box \<Rightarrow> widget list \<Rightarrow> Size list \<Rightarrow> float \<Rightarrow> widget list"
  and Stack_layoutChildren :: "Widget \<Rightarrow> Stack \<Rightarrow> widget list \<Rightarrow> widget list"
  and Grid_layoutChildren :: "Widget \<Rightarrow> Grid \<Rightarrow> widget list \<Rightarrow> int \<Rightarrow> int \<Rightarrow> widget list"
where
  "layout (Leaf w k) rect = Leaf (Widget_setBounds w rect) k"
| "layout (Node w k cs) rect =
     Node (Widget_setBounds w rect) k (layoutChildren (Widget_setBounds w rect) k cs)"
| "layoutChildren w k cs =
     (case k of
        KContainer \<Rightarrow> cs
      | KBox b \<Rightarrow>
          (if cs = [] then cs
           else
             (case Box_measureChildren cs
                     (mkSize (r_width (contentBounds w)) (r_height (contentBounds w))) of
                (childSizes, cs1) \<Rightarrow>
                  (if box_direction b = Horizontal
                   then layoutHorizontal w b cs1 childSizes
                          (layoutHorizontal_start w b childSizes (Box_totalSpacing b cs))
                   else layoutVertical w b cs1 childSizes
                          (layoutVertical_start w b childSizes (Box_totalSpacing b cs)))))
      | KStack s \<Rightarrow> Stack_layoutChildren w s cs
      | KGrid g \<Rightarrow>
          (if cs = [] \<or> grid_columns g \<le> 0 then cs else Grid_layoutChildren w g cs 0 0)
      | KScrollView s \<Rightarrow>
          (case cs of
             [] \<Rightarrow> cs
           | c # rest \<Rightarrow>
               (case Widget_measure c (ScrollView_available w s) of
                  (childSize, c1) \<Rightarrow> layout c1 (ScrollView_rect w s childSize) # rest))
      | KSidebar s \<Rightarrow>
          (if length cs < 2 then cs
           else
             (case cs of
                sidebar # content # rest \<Rightarrow>
                  layout sidebar (Sidebar_sidebarRect w s)
                    # layout content (Sidebar_contentRect w s) # rest
              | _ \<Rightarrow> cs)))"
| "layoutHorizontal w b [] sizes x = []"
| "layoutHorizontal w b (c # cs) [] x = c # cs"
| "layoutHorizontal w b (c # cs) (sz # sizes) x =
     layout c (layoutHorizontal_rect w b sz x)
       # layoutHorizontal w b cs sizes (x + s_width sz + box_spacing b)"
| "layoutVertical w b [] sizes y = []"
| "layoutVertical w b (c # cs) [] y = c # cs"
| "layoutVertical w b (c # cs) (sz # sizes) y =
     layout c (layoutVertical_rect w b sz y)
       # layoutVertical w b cs sizes (y + s_height sz + box_spacing b)"
| "Stack_layoutChildren w s [] = []"
| "Stack_layoutChildren w s (c # cs) =
     (case Widget_measure c (mkSize (r_width (contentBounds w)) (r_height (contentBounds w))) of
        (childSize, c1) \<Rightarrow> layout c1 (Stack_rect w s childSize) # Stack_layoutChildren w s cs)"
| "Grid_layoutChildren w g [] row col = []"
| "Grid_layoutChildren w g (c # cs) row col =
     layout c (Grid_rect w g row col)
       # (if col + 1 \<ge> grid_columns g
          then Grid_layoutChildren w g cs (row + 1) 0
          else Grid_layoutChildren w g cs row (col + 1))"
  by pat_completeness auto
termination layout
  apply (relation "Wellfounded.measure (\<lambda>x. case x of
      Inl (Inl (w, r)) \<Rightarrow> 4 * nodes w
    | Inl (Inr (Inl (w, k, cs))) \<Rightarrow> 4 * sum_list (map nodes cs) + 3
    | Inl (Inr (Inr (w, b, cs, sizes, x))) \<Rightarrow> 4 * sum_list (map nodes cs) + 1
    | Inr (Inl (w, b, cs, sizes, x)) \<Rightarrow> 4 * sum_list (map nodes cs) + 1
    | Inr (Inr (Inl (w, s, cs))) \<Rightarrow> 4 * sum_list (map nodes cs) + 1
    | Inr (Inr (Inr (w, g, cs, row, col))) \<Rightarrow> 4 * sum_list (map nodes cs) + 1)")
  apply (auto dest!: Widget_measure_nodes_eq Box_measureChildren_nodes_eq)
  done

declare layoutChildren.simps [simp del]

subsection \<open>Reads of \<^verbatim>\<open>children_\<close> by index\<close>

text \<open>
  \<^verbatim>\<open>ScrollView\<close> and \<^verbatim>\<open>Sidebar\<close> read their children by index, \<^verbatim>\<open>children_[0]\<close> and
  \<^verbatim>\<open>children_[1]\<close>, and the loops of \<^verbatim>\<open>Box::layoutHorizontal\<close> and
  \<^verbatim>\<open>Box::layoutVertical\<close> read \<^verbatim>\<open>sizes[i]\<close>. The index operator of \<^verbatim>\<open>std::vector\<close> has no
  defined result past the end of the vector; \<open>vec_at\<close> makes that case the error value,
  as \<open>string_erase\<close> does for the exception of \<^verbatim>\<open>std::string\<close>.

  The functions above take the children they read out of the list by pattern matching.
  The functions of this subsection are the same member functions with every read by index
  written as \<open>vec_at\<close> and every result carrying the error: \<open>Inl\<close> is a read out of
  range somewhere in the call, \<open>Inr\<close> the result of a call without one. The children of
  a range-based \<^verbatim>\<open>for\<close> loop, and \<^verbatim>\<open>children_[i]\<close> under the loop condition
  \<^verbatim>\<open>i < children_.size()\<close>, are the elements of the list in order; \<^verbatim>\<open>sizes[i]\<close> is the
  head of the sizes that are left, and out of range when none is left.
\<close>

definition vec_at :: "'a list \<Rightarrow> nat \<Rightarrow> error + 'a" where
  "vec_at xs i = (if i < length xs then Inr (xs ! i) else Inl OutOfRange)"

text \<open>
  \<^verbatim>\<open>Widget::measure\<close> and the overrides of \<^verbatim>\<open>measureContent\<close>.
  \<^verbatim>\<open>ScrollView::measureContent\<close> reads \<^verbatim>\<open>children_[0]\<close> after its guard.
\<close>

function Widget_measure_chk :: "widget \<Rightarrow> Size \<Rightarrow> error + (Size \<times> widget)"
  and resolveWidth_chk :: "widget \<Rightarrow> Size \<Rightarrow> error + (float \<times> widget)"
  and resolveHeight_chk :: "widget \<Rightarrow> Size \<Rightarrow> error + (float \<times> widget)"
  and measureContent_chk :: "widget \<Rightarrow> Size \<Rightarrow> error + (Size \<times> widget)"
  and Box_measureH_chk :: "widget list \<Rightarrow> Size \<Rightarrow> Size \<Rightarrow> error + (Size \<times> widget list)"
  and Box_measureV_chk :: "widget list \<Rightarrow> Size \<Rightarrow> Size \<Rightarrow> error + (Size \<times> widget list)"
  and Stack_measure_chk :: "widget list \<Rightarrow> Size \<Rightarrow> Size \<Rightarrow> error + (Size \<times> widget list)"
where
  "Widget_measure_chk w available =
     (if \<not> visible (base w) then Inr (mkSize 0 0, w)
      else
        (case resolveWidth_chk w (applyMargin (base w) available) of
           Inl e \<Rightarrow> Inl e
         | Inr (rw, w1) \<Rightarrow>
             (case resolveHeight_chk w1 (applyMargin (base w) available) of
                Inl e \<Rightarrow> Inl e
              | Inr (rh, w2) \<Rightarrow>
                  Inr (mkSize rw rh, set_base w2 ((base w2)\<lparr>measuredSize := mkSize rw rh\<rparr>)))))"
| "resolveWidth_chk w avail =
     (case spec_constraint (widthSpec (base w)) of
        Fixed \<Rightarrow> Inr (spec_value (widthSpec (base w)), w)
      | Fill \<Rightarrow> Inr (s_width avail, w)
      | Percent \<Rightarrow> Inr (s_width avail * (spec_value (widthSpec (base w)) / 100), w)
      | Content \<Rightarrow>
          (case measureContent_chk w avail of
             Inl e \<Rightarrow> Inl e
           | Inr (s, w') \<Rightarrow> Inr (s_width s + horizontal (padding (style (base w))), w')))"
| "resolveHeight_chk w avail =
     (case spec_constraint (heightSpec (base w)) of
        Fixed \<Rightarrow> Inr (spec_value (heightSpec (base w)), w)
      | Fill \<Rightarrow> Inr (s_height avail, w)
      | Percent \<Rightarrow> Inr (s_height avail * (spec_value (heightSpec (base w)) / 100), w)
      | Content \<Rightarrow>
          (case measureContent_chk w avail of
             Inl e \<Rightarrow> Inl e
           | Inr (s, w') \<Rightarrow> Inr (s_height s + vertical (padding (style (base w))), w')))"
| "measureContent_chk (Leaf w k) available = Inr (leaf_measureContent w k available, Leaf w k)"
| "measureContent_chk (Node w k cs) available =
     (case k of
        KContainer \<Rightarrow> Inr (mkSize 0 0, Node w k cs)
      | KBox b \<Rightarrow>
          (if cs = [] then Inr (mkSize 0 0, Node w k cs)
           else if box_direction b = Horizontal then
             (case Box_measureH_chk cs
                     (available\<lparr>s_width := s_width available - Box_totalSpacing b cs\<rparr>)
                     (mkSize 0 0) of
                Inl e \<Rightarrow> Inl e
              | Inr (result, cs') \<Rightarrow>
                  Inr (result\<lparr>s_width := s_width result + Box_totalSpacing b cs\<rparr>, Node w k cs'))
           else
             (case Box_measureV_chk cs
                     (available\<lparr>s_height := s_height available - Box_totalSpacing b cs\<rparr>)
                     (mkSize 0 0) of
                Inl e \<Rightarrow> Inl e
              | Inr (result, cs') \<Rightarrow>
                  Inr (result\<lparr>s_height := s_height result + Box_totalSpacing b cs\<rparr>, Node w k cs')))
      | KStack s \<Rightarrow>
          (case Stack_measure_chk cs available (mkSize 0 0) of
             Inl e \<Rightarrow> Inl e
           | Inr (result, cs') \<Rightarrow> Inr (result, Node w k cs'))
      | KGrid g \<Rightarrow> Inr (Grid_measureContent g (length cs) available, Node w k cs)
      | KScrollView s \<Rightarrow>
          (if cs = [] then Inr (mkSize 0 0, Node w k cs)
           else if sv_scrollDir s = Horizontal then
             (case vec_at cs 0 of
                Inl e \<Rightarrow> Inl e
              | Inr c \<Rightarrow>
                  (case Widget_measure_chk c (mkSize 1000000000 (s_height available)) of
                     Inl e \<Rightarrow> Inl e
                   | Inr (sz, c') \<Rightarrow>
                       Inr (mkSize (s_width sz) (s_height available), Node w k (cs[0 := c']))))
           else
             (case vec_at cs 0 of
                Inl e \<Rightarrow> Inl e
              | Inr c \<Rightarrow>
                  (case Widget_measure_chk c (mkSize (s_width available) 1000000000) of
                     Inl e \<Rightarrow> Inl e
                   | Inr (sz, c') \<Rightarrow>
                       Inr (mkSize (s_width available) (s_height sz), Node w k (cs[0 := c'])))))
      | KSidebar s \<Rightarrow> Inr (mkSize 0 0, Node w k cs))"
| "Box_measureH_chk [] childAvailable result = Inr (result, [])"
| "Box_measureH_chk (c # cs) childAvailable result =
     (case Widget_measure_chk c childAvailable of
        Inl e \<Rightarrow> Inl e
      | Inr (childSize, c') \<Rightarrow>
          (case Box_measureH_chk cs childAvailable
                  (result\<lparr>s_width := s_width result + s_width childSize,
                          s_height := std_max (s_height result) (s_height childSize)\<rparr>) of
             Inl e \<Rightarrow> Inl e
           | Inr (result', cs') \<Rightarrow> Inr (result', c' # cs')))"
| "Box_measureV_chk [] childAvailable result = Inr (result, [])"
| "Box_measureV_chk (c # cs) childAvailable result =
     (case Widget_measure_chk c childAvailable of
        Inl e \<Rightarrow> Inl e
      | Inr (childSize, c') \<Rightarrow>
          (case Box_measureV_chk cs childAvailable
                  (result\<lparr>s_height := s_height result + s_height childSize,
                          s_width := std_max (s_width result) (s_width childSize)\<rparr>) of
             Inl e \<Rightarrow> Inl e
           | Inr (result', cs') \<Rightarrow> Inr (result', c' # cs')))"
| "Stack_measure_chk [] available result = Inr (result, [])"
| "Stack_measure_chk (c # cs) available result =
     (case Widget_measure_chk c available of
        Inl e \<Rightarrow> Inl e
      | Inr (childSize, c') \<Rightarrow>
          (case Stack_measure_chk cs available
                  (result\<lparr>s_width := std_max (s_width result) (s_width childSize),
                          s_height := std_max (s_height result) (s_height childSize)\<rparr>) of
             Inl e \<Rightarrow> Inl e
           | Inr (result', cs') \<Rightarrow> Inr (result', c' # cs')))"
  by pat_completeness auto

abbreviation (input) "measure_chk_dom \<equiv>
  Widget_measure_chk_resolveWidth_chk_resolveHeight_chk_measureContent_chk_Box_measureH_chk_Box_measureV_chk_Stack_measure_chk_dom"


text \<open>
  These functions never fail, and they return what the functions above return; the
  equations are shown on the domain of the functions first, which gives their termination.
\<close>

lemma vec_at_nodes: "vec_at cs i = Inr c \<Longrightarrow> nodes c \<le> sum_list (map nodes cs)"
  by (auto simp add: vec_at_def intro!: member_le_sum_list split: if_splits)

lemma resolveWidth_nodes: "(rw, w1) = resolveWidth w a \<Longrightarrow> nodes w1 = nodes w"
  using measure_clearMeasured(2)[of w a] nodes_clearMeasured by (metis snd_conv)

lemma measure_chk_partial:
  "measure_chk_dom (Inl (Inl (w, a))) \<Longrightarrow> Widget_measure_chk w a = Inr (Widget_measure w a)"
  "measure_chk_dom (Inl (Inr (Inl (w1, a1)))) \<Longrightarrow> resolveWidth_chk w1 a1 = Inr (resolveWidth w1 a1)"
  "measure_chk_dom (Inl (Inr (Inr (w2, a2)))) \<Longrightarrow> resolveHeight_chk w2 a2 = Inr (resolveHeight w2 a2)"
  "measure_chk_dom (Inr (Inl (Inl (w3, a3)))) \<Longrightarrow> measureContent_chk w3 a3 = Inr (measureContent w3 a3)"
  "measure_chk_dom (Inr (Inl (Inr (cs, ca, r)))) \<Longrightarrow>
     Box_measureH_chk cs ca r = Inr (Box_measureH cs ca r)"
  "measure_chk_dom (Inr (Inr (Inl (cs1, ca1, r1)))) \<Longrightarrow>
     Box_measureV_chk cs1 ca1 r1 = Inr (Box_measureV cs1 ca1 r1)"
  "measure_chk_dom (Inr (Inr (Inr (cs2, ca2, r2)))) \<Longrightarrow>
     Stack_measure_chk cs2 ca2 r2 = Inr (Stack_measure cs2 ca2 r2)"
proof (induction w a and w1 a1 and w2 a2 and w3 a3 and cs ca r and cs1 ca1 r1 and cs2 ca2 r2
    rule: Widget_measure_chk_resolveWidth_chk_resolveHeight_chk_measureContent_chk_Box_measureH_chk_Box_measureV_chk_Stack_measure_chk.pinduct)
  case (1 w available)
  show ?case
  proof (cases "visible (base w)")
    case False
    then show ?thesis using "1.hyps"
      by (simp add: Widget_measure_chk.psimps Widget_measure.simps)
  next
    case True
    obtain rw w1 where rw: "resolveWidth w (applyMargin (base w) available) = (rw, w1)"
      by (cases "resolveWidth w (applyMargin (base w) available)")
    have c1: "resolveWidth_chk w (applyMargin (base w) available) = Inr (rw, w1)"
      using "1.IH"(1) True rw by simp
    have c2: "resolveHeight_chk w1 (applyMargin (base w) available)
        = Inr (resolveHeight w1 (applyMargin (base w) available))"
      using "1.IH"(2)[OF _ c1 refl] True by simp
    show ?thesis using "1.hyps" True rw c1 c2
      by (simp add: Widget_measure_chk.psimps Widget_measure.simps split_beta)
  qed
next
  case (2 w avail)
  then show ?case
    by (auto simp: resolveWidth_chk.psimps resolveWidth.simps split: SizeConstraint.splits prod.splits)
next
  case (3 w avail)
  then show ?case
    by (auto simp: resolveHeight_chk.psimps resolveHeight.simps split: SizeConstraint.splits prod.splits)
next
  case (4 w k available)
  then show ?case by (simp add: measureContent_chk.psimps)
next
  case (5 w k cs available)
  show ?case
  proof (cases k)
    case (KScrollView s)
    show ?thesis
    proof (cases cs)
      case Nil
      then show ?thesis using "5.hyps" KScrollView by (simp add: measureContent_chk.psimps)
    next
      case (Cons c rest)
      then have v: "vec_at cs 0 = Inr c" by (simp add: vec_at_def)
      show ?thesis
        using "5.hyps" KScrollView Cons v "5.IH"(4)[OF KScrollView _ _ v] "5.IH"(5)[OF KScrollView _ _ v]
        by (simp add: measureContent_chk.psimps split_beta)
    qed
  qed (use 5 in \<open>auto simp: measureContent_chk.psimps split: prod.splits\<close>)
next
  case (6 childAvailable result)
  then show ?case by (simp add: Box_measureH_chk.psimps)
next
  case (7 c cs childAvailable result)
  obtain sz c' where m: "Widget_measure c childAvailable = (sz, c')"
    by (cases "Widget_measure c childAvailable")
  have c1: "Widget_measure_chk c childAvailable = Inr (sz, c')" using "7.IH"(1) m by simp
  show ?case
    using "7.hyps" c1 "7.IH"(2)[OF c1 refl] m
    by (simp add: Box_measureH_chk.psimps split_beta)
next
  case (8 childAvailable result)
  then show ?case by (simp add: Box_measureV_chk.psimps)
next
  case (9 c cs childAvailable result)
  obtain sz c' where m: "Widget_measure c childAvailable = (sz, c')"
    by (cases "Widget_measure c childAvailable")
  have c1: "Widget_measure_chk c childAvailable = Inr (sz, c')" using "9.IH"(1) m by simp
  show ?case
    using "9.hyps" c1 "9.IH"(2)[OF c1 refl] m
    by (simp add: Box_measureV_chk.psimps split_beta)
next
  case (10 available result)
  then show ?case by (simp add: Stack_measure_chk.psimps)
next
  case (11 c cs available result)
  obtain sz c' where m: "Widget_measure c available = (sz, c')"
    by (cases "Widget_measure c available")
  have c1: "Widget_measure_chk c available = Inr (sz, c')" using "11.IH"(1) m by simp
  show ?case
    using "11.hyps" c1 "11.IH"(2)[OF c1 refl] m
    by (simp add: Stack_measure_chk.psimps split_beta)
qed

lemma measure_chk_total: "All measure_chk_dom"
  apply (relation "Wellfounded.measure (\<lambda>x. case x of
      Inl (Inl (w, a)) \<Rightarrow> 5 * nodes w + 2
    | Inl (Inr (Inl (w, a))) \<Rightarrow> 5 * nodes w + 1
    | Inl (Inr (Inr (w, a))) \<Rightarrow> 5 * nodes w + 1
    | Inr (Inl (Inl (w, a))) \<Rightarrow> 5 * nodes w
    | Inr (Inl (Inr (cs, a, r))) \<Rightarrow> 5 * sum_list (map nodes cs) + 3
    | Inr (Inr (Inl (cs, a, r))) \<Rightarrow> 5 * sum_list (map nodes cs) + 3
    | Inr (Inr (Inr (cs, a, r))) \<Rightarrow> 5 * sum_list (map nodes cs) + 3)")
  apply (auto dest!: vec_at_nodes)
  subgoal premises p for w available a b
    using measure_chk_partial(2)[OF p(3)] p(2) resolveWidth_nodes[of a b w] by simp
  done

termination Widget_measure_chk
  by (rule measure_chk_total)

declare Widget_measure_chk.simps [simp del] resolveWidth_chk.simps [simp del]
  resolveHeight_chk.simps [simp del]


lemma Widget_measure_chk_eq: "Widget_measure_chk w a = Inr (Widget_measure w a)"
  using measure_chk_partial(1) measure_chk_total by blast

lemma measureContent_chk_eq: "measureContent_chk w a = Inr (measureContent w a)"
  using measure_chk_partial(4) measure_chk_total by blast

text \<open>
  \<^verbatim>\<open>Widget::layout\<close> and the overrides of \<^verbatim>\<open>layoutChildren\<close>.
  \<^verbatim>\<open>ScrollView::layoutChildren\<close> reads \<^verbatim>\<open>children_[0]\<close> twice, for the measuring and for
  the layout, and \<^verbatim>\<open>Sidebar::layoutChildren\<close> reads \<^verbatim>\<open>children_[0]\<close> and \<^verbatim>\<open>children_[1]\<close>,
  each behind its guard; the Sidebar lays the sidebar pane out first for the positions
  Left and Top, and the content pane first for Right and Bottom.
\<close>

fun Box_measureChildren_chk ::
  "widget list \<Rightarrow> Size \<Rightarrow> error + (Size list \<times> widget list)" where
  "Box_measureChildren_chk [] available = Inr ([], [])"
| "Box_measureChildren_chk (c # cs) available =
     (case Widget_measure_chk c available of
        Inl e \<Rightarrow> Inl e
      | Inr (childSize, c') \<Rightarrow>
          (case Box_measureChildren_chk cs available of
             Inl e \<Rightarrow> Inl e
           | Inr (childSizes, cs') \<Rightarrow> Inr (childSize # childSizes, c' # cs')))"

lemma Box_measureChildren_chk_eq:
  "Box_measureChildren_chk cs a = Inr (Box_measureChildren cs a)"
  by (induction cs) (simp_all add: Widget_measure_chk_eq split_beta)

lemma Box_measureChildren_length:
  "length (fst (Box_measureChildren cs a)) = length cs"
  "length (snd (Box_measureChildren cs a)) = length cs"
  by (induction cs) (simp_all add: split_beta)

function layout_chk :: "widget \<Rightarrow> Rect \<Rightarrow> error + widget"
  and layoutChildren_chk :: "Widget \<Rightarrow> container_kind \<Rightarrow> widget list \<Rightarrow> error + widget list"
  and layoutHorizontal_chk ::
    "Widget \<Rightarrow> Box \<Rightarrow> widget list \<Rightarrow> Size list \<Rightarrow> float \<Rightarrow> error + widget list"
  and layoutVertical_chk ::
    "Widget \<Rightarrow> Box \<Rightarrow> widget list \<Rightarrow> Size list \<Rightarrow> float \<Rightarrow> error + widget list"
  and Stack_layoutChildren_chk :: "Widget \<Rightarrow> Stack \<Rightarrow> widget list \<Rightarrow> error + widget list"
  and Grid_layoutChildren_chk ::
    "Widget \<Rightarrow> Grid \<Rightarrow> widget list \<Rightarrow> int \<Rightarrow> int \<Rightarrow> error + widget list"
where
  "layout_chk (Leaf w k) rect = Inr (Leaf (Widget_setBounds w rect) k)"
| "layout_chk (Node w k cs) rect =
     (case layoutChildren_chk (Widget_setBounds w rect) k cs of
        Inl e \<Rightarrow> Inl e
      | Inr cs' \<Rightarrow> Inr (Node (Widget_setBounds w rect) k cs'))"
| "layoutChildren_chk w k cs =
     (case k of
        KContainer \<Rightarrow> Inr cs
      | KBox b \<Rightarrow>
          (if cs = [] then Inr cs
           else
             (case Box_measureChildren_chk cs
                     (mkSize (r_width (contentBounds w)) (r_height (contentBounds w))) of
                Inl e \<Rightarrow> Inl e
              | Inr (childSizes, cs1) \<Rightarrow>
                  (if box_direction b = Horizontal
                   then layoutHorizontal_chk w b cs1 childSizes
                          (layoutHorizontal_start w b childSizes (Box_totalSpacing b cs))
                   else layoutVertical_chk w b cs1 childSizes
                          (layoutVertical_start w b childSizes (Box_totalSpacing b cs)))))
      | KStack s \<Rightarrow> Stack_layoutChildren_chk w s cs
      | KGrid g \<Rightarrow>
          (if cs = [] \<or> grid_columns g \<le> 0 then Inr cs else Grid_layoutChildren_chk w g cs 0 0)
      | KScrollView s \<Rightarrow>
          (if cs = [] then Inr cs
           else
             (case vec_at cs 0 of
                Inl e \<Rightarrow> Inl e
              | Inr c \<Rightarrow>
                  (case Widget_measure_chk c (ScrollView_available w s) of
                     Inl e \<Rightarrow> Inl e
                   | Inr (childSize, c1) \<Rightarrow>
                       (case vec_at (cs[0 := c1]) 0 of
                          Inl e \<Rightarrow> Inl e
                        | Inr c2 \<Rightarrow>
                            (case layout_chk c2 (ScrollView_rect w s childSize) of
                               Inl e \<Rightarrow> Inl e
                             | Inr c3 \<Rightarrow> Inr (cs[0 := c3]))))))
      | KSidebar s \<Rightarrow>
          (if length cs < 2 then Inr cs
           else
             (case vec_at cs 0 of
                Inl e \<Rightarrow> Inl e
              | Inr sidebar \<Rightarrow>
                  (case vec_at cs 1 of
                     Inl e \<Rightarrow> Inl e
                   | Inr content \<Rightarrow>
                       (if sb_position s = Position_Left \<or> sb_position s = Position_Top then
                          (case layout_chk sidebar (Sidebar_sidebarRect w s) of
                             Inl e \<Rightarrow> Inl e
                           | Inr sidebar' \<Rightarrow>
                               (case layout_chk content (Sidebar_contentRect w s) of
                                  Inl e \<Rightarrow> Inl e
                                | Inr content' \<Rightarrow> Inr (cs[0 := sidebar', 1 := content'])))
                        else
                          (case layout_chk content (Sidebar_contentRect w s) of
                             Inl e \<Rightarrow> Inl e
                           | Inr content' \<Rightarrow>
                               (case layout_chk sidebar (Sidebar_sidebarRect w s) of
                                  Inl e \<Rightarrow> Inl e
                                | Inr sidebar' \<Rightarrow> Inr (cs[1 := content', 0 := sidebar']))))))))"
| "layoutHorizontal_chk w b [] sizes x = Inr []"
| "layoutHorizontal_chk w b (c # cs) [] x = Inl OutOfRange"
| "layoutHorizontal_chk w b (c # cs) (sz # sizes) x =
     (case layout_chk c (layoutHorizontal_rect w b sz x) of
        Inl e \<Rightarrow> Inl e
      | Inr c' \<Rightarrow>
          (case layoutHorizontal_chk w b cs sizes (x + s_width sz + box_spacing b) of
             Inl e \<Rightarrow> Inl e
           | Inr cs' \<Rightarrow> Inr (c' # cs')))"
| "layoutVertical_chk w b [] sizes y = Inr []"
| "layoutVertical_chk w b (c # cs) [] y = Inl OutOfRange"
| "layoutVertical_chk w b (c # cs) (sz # sizes) y =
     (case layout_chk c (layoutVertical_rect w b sz y) of
        Inl e \<Rightarrow> Inl e
      | Inr c' \<Rightarrow>
          (case layoutVertical_chk w b cs sizes (y + s_height sz + box_spacing b) of
             Inl e \<Rightarrow> Inl e
           | Inr cs' \<Rightarrow> Inr (c' # cs')))"
| "Stack_layoutChildren_chk w s [] = Inr []"
| "Stack_layoutChildren_chk w s (c # cs) =
     (case Widget_measure_chk c (mkSize (r_width (contentBounds w)) (r_height (contentBounds w))) of
        Inl e \<Rightarrow> Inl e
      | Inr (childSize, c1) \<Rightarrow>
          (case layout_chk c1 (Stack_rect w s childSize) of
             Inl e \<Rightarrow> Inl e
           | Inr c2 \<Rightarrow>
               (case Stack_layoutChildren_chk w s cs of
                  Inl e \<Rightarrow> Inl e
                | Inr cs' \<Rightarrow> Inr (c2 # cs'))))"
| "Grid_layoutChildren_chk w g [] row col = Inr []"
| "Grid_layoutChildren_chk w g (c # cs) row col =
     (case layout_chk c (Grid_rect w g row col) of
        Inl e \<Rightarrow> Inl e
      | Inr c' \<Rightarrow>
          (case (if col + 1 \<ge> grid_columns g
                 then Grid_layoutChildren_chk w g cs (row + 1) 0
                 else Grid_layoutChildren_chk w g cs row (col + 1)) of
             Inl e \<Rightarrow> Inl e
           | Inr cs' \<Rightarrow> Inr (c' # cs')))"
  by pat_completeness auto

lemma vec_at_update0 [simp]: "cs \<noteq> [] \<Longrightarrow> vec_at (cs[0 := c]) 0 = Inr c"
  by (simp add: vec_at_def)

lemma Widget_measure_nodes_eq2: "Widget_measure w a = (sz, w') \<Longrightarrow> nodes w' = nodes w"
  using Widget_measure_nodes[of w a] by simp

lemma Box_measureChildren_nodes_eq2:
  "Box_measureChildren cs a = (szs, cs') \<Longrightarrow> map nodes cs' = map nodes cs"
  using Box_measureChildren_nodes[of cs a] by simp

termination layout_chk
  apply (relation "Wellfounded.measure (\<lambda>x. case x of
      Inl (Inl (w, r)) \<Rightarrow> 4 * nodes w
    | Inl (Inr (Inl (w, k, cs))) \<Rightarrow> 4 * sum_list (map nodes cs) + 3
    | Inl (Inr (Inr (w, b, cs, sizes, x))) \<Rightarrow> 4 * sum_list (map nodes cs) + 1
    | Inr (Inl (w, b, cs, sizes, x)) \<Rightarrow> 4 * sum_list (map nodes cs) + 1
    | Inr (Inr (Inl (w, s, cs))) \<Rightarrow> 4 * sum_list (map nodes cs) + 1
    | Inr (Inr (Inr (w, g, cs, row, col))) \<Rightarrow> 4 * sum_list (map nodes cs) + 1)")
  apply (auto simp add: Widget_measure_chk_eq Box_measureChildren_chk_eq
      dest!: Widget_measure_nodes_eq2 Box_measureChildren_nodes_eq2 vec_at_nodes)
  done


declare layoutChildren_chk.simps [simp del]

subsection \<open>Mouse buttons and scrolling in the tree\<close>

text \<open>
  \<open>handleMouseButton\<close> is the virtual call: Button, TextInput, Slider and Checkbox override
  the base handler, every other leaf inherits \<^verbatim>\<open>Widget::handleMouseButton\<close>, and every
  container class inherits \<^verbatim>\<open>Container::handleMouseButton\<close>, whose loop over the children is
  \<open>Container_handleMouseButton_children\<close>.
\<close>

fun handleMouseButton :: "widget \<Rightarrow> MouseEvent \<Rightarrow> bool \<times> widget \<times> callback list"
  and Container_handleMouseButton_children ::
    "widget list \<Rightarrow> MouseEvent \<Rightarrow> bool \<times> widget list \<times> callback list"
where
  "handleMouseButton (Leaf w k) event =
     (case k of
        KButton b \<Rightarrow>
          (case Button_handleMouseButton w b event of
             (r, b', cbs) \<Rightarrow> (r, Leaf w (KButton b'), cbs))
      | KTextInput t \<Rightarrow>
          (case TextInput_handleMouseButton w event of
             (r, w', cbs) \<Rightarrow> (r, Leaf w' (KTextInput t), cbs))
      | KSlider s \<Rightarrow>
          (case Slider_handleMouseButton w s event of
             (r, s', cbs) \<Rightarrow> (r, Leaf w (KSlider s'), cbs))
      | KCheckbox c \<Rightarrow>
          (case Checkbox_handleMouseButton w c event of
             (r, c', cbs) \<Rightarrow> (r, Leaf w (KCheckbox c'), cbs))
      | _ \<Rightarrow>
          (case Widget_handleMouseButton w event of
             (r, cbs) \<Rightarrow> (r, Leaf w k, cbs)))"
| "handleMouseButton (Node w k cs) event =
     (case Widget_handleMouseButton w event of
        (r, cbs) \<Rightarrow>
          (if r then (True, Node w k cs, cbs)
           else
             (case Container_handleMouseButton_children cs event of
                (r', cs', cbs') \<Rightarrow> (r', Node w k cs', cbs @ cbs'))))"
| "Container_handleMouseButton_children [] event = (False, [], [])"
| "Container_handleMouseButton_children (c # cs) event =
     (case handleMouseButton c event of
        (r, c', cbs) \<Rightarrow>
          (if r then (True, c' # cs, cbs)
           else
             (case Container_handleMouseButton_children cs event of
                (r', cs', cbs') \<Rightarrow> (r', c' # cs', cbs @ cbs'))))"

text \<open>
  \<^verbatim>\<open>ScrollView::handleScroll\<close> is the only override of \<^verbatim>\<open>handleScroll\<close>; every other class
  inherits the base handler, which returns false.
\<close>

definition ScrollView_scroll :: "ScrollView \<Rightarrow> ScrollEvent \<Rightarrow> ScrollView" where
  "ScrollView_scroll s event =
     (if sv_scrollDir s = Horizontal
      then s\<lparr>sv_scrollOffset := (sv_scrollOffset s)\<lparr>
             p_x := std_max 0 (p_x (sv_scrollOffset s) - se_deltaX event * 20)\<rparr>\<rparr>
      else s\<lparr>sv_scrollOffset := (sv_scrollOffset s)\<lparr>
             p_y := std_max 0 (p_y (sv_scrollOffset s) - se_deltaY event * 20)\<rparr>\<rparr>)"

fun handleScroll :: "widget \<Rightarrow> ScrollEvent \<Rightarrow> bool \<times> widget" where
  "handleScroll (Node w (KScrollView s) cs) event =
     (if \<not> contains (contentBounds w) (se_position event)
      then (False, Node w (KScrollView s) cs)
      else (True, Node w (KScrollView (ScrollView_scroll s event))
                   (layoutChildren w (KScrollView (ScrollView_scroll s event)) cs)))"
| "handleScroll w event = (False, w)"

subsection \<open>Rendering (renderer.hpp, widgets.hpp)\<close>

text \<open>
  The renderer is an external collaborator: a call of one of its drawing primitives is an
  entry of the list a render function returns, in the order of the calls. \<^verbatim>\<open>loadFont\<close>
  answers with a font (or the null pointer, \<open>None\<close>); of a font only \<^verbatim>\<open>measureText\<close> is
  used.
\<close>

datatype drawcall =
    DrawRect Rect Color
  | DrawRoundedRect Rect BorderRadius Color
  | DrawBorder Rect BorderRadius Color float
  | DrawGradient Rect Color Color float
  | DrawText string Point Color TextStyle

record Font =
  font_measureText :: "string \<Rightarrow> Size"

record Renderer =
  rd_loadFont :: "string \<Rightarrow> float \<Rightarrow> Font option"

text \<open>\<^verbatim>\<open>Widget::render\<close>.\<close>

definition Widget_render :: "Widget \<Rightarrow> drawcall list" where
  "Widget_render w =
     (if \<not> visible w then []
      else
        (if hasShadow (style w)
         then [DrawRoundedRect
                 ((bounds w)\<lparr>r_x := r_x (bounds w) + p_x (shadowOffset (style w)),
                             r_y := r_y (bounds w) + p_y (shadowOffset (style w))\<rparr>)
                 (borderRadius (style w)) (shadowColor (style w))]
         else [])
        @ (if hasGradient (style w)
           then [DrawGradient (bounds w) (gradientStart (style w)) (gradientEnd (style w))
                   (gradientAngle (style w))]
           else if c_a (background (style w)) > 0 then
             (if topLeftR (borderRadius (style w)) > 0 \<or> topRightR (borderRadius (style w)) > 0
                 \<or> bottomLeftR (borderRadius (style w)) > 0
                 \<or> bottomRightR (borderRadius (style w)) > 0
              then [DrawRoundedRect (bounds w) (borderRadius (style w)) (background (style w))]
              else [DrawRect (bounds w) (background (style w))])
           else [])
        @ (if borderWidth (style w) > 0 \<and> c_a (borderColor (style w)) > 0
           then [DrawBorder (bounds w) (borderRadius (style w)) (borderColor (style w))
                   (borderWidth (style w))]
           else []))"

text \<open>\<^verbatim>\<open>Text::render\<close>: the base rendering, then the text at its aligned position.\<close>

definition Text_textPos :: "Widget \<Rightarrow> Text \<Rightarrow> Size \<Rightarrow> Point" where
  "Text_textPos w t textSize =
     (let textPos = topLeft (contentBounds w);
          textPos1 =
            (case align (t_textStyle t) of
               Align_Center \<Rightarrow>
                 textPos\<lparr>p_x := p_x textPos + (r_width (contentBounds w) - s_width textSize) / 2\<rparr>
             | Align_Right \<Rightarrow>
                 textPos\<lparr>p_x := p_x textPos + (r_width (contentBounds w) - s_width textSize)\<rparr>
             | Align_Left \<Rightarrow> textPos)
      in (case valign (t_textStyle t) of
            VAlign_Middle \<Rightarrow>
              textPos1\<lparr>p_y := p_y textPos1 + (r_height (contentBounds w) - s_height textSize) / 2\<rparr>
          | VAlign_Bottom \<Rightarrow>
              textPos1\<lparr>p_y := p_y textPos1 + (r_height (contentBounds w) - s_height textSize)\<rparr>
          | VAlign_Top \<Rightarrow> textPos1))"

definition Text_render :: "Renderer \<Rightarrow> Widget \<Rightarrow> Text \<Rightarrow> drawcall list" where
  "Text_render renderer w t =
     Widget_render w
     @ (if t_text t = [] then []
        else
          (case rd_loadFont renderer (fontFamily (t_textStyle t)) (fontSize (t_textStyle t)) of
             None \<Rightarrow> []
           | Some font \<Rightarrow>
               [DrawText (t_text t) (Text_textPos w t (font_measureText font (t_text t)))
                  (color (t_textStyle t)) (t_textStyle t)]))"

subsection \<open>Constructors\<close>

text \<open>The default member initialisers and the constructors of the classes used below.\<close>

definition BoxStyle_init :: BoxStyle where
  "BoxStyle_init = \<lparr>
     background = mkColor 0 0 0 0,
     borderColor = mkColor 0 0 0 0,
     borderWidth = 0,
     borderRadius = \<lparr>topLeftR = 0, topRightR = 0, bottomRightR = 0, bottomLeftR = 0\<rparr>,
     padding = mkPadding 0 0 0 0,
     margin = mkPadding 0 0 0 0,
     hasShadow = False,
     shadowColor = mkColor 0 0 0 0.3,
     shadowOffset = mkPoint 0 2,
     shadowBlur = 4,
     hasGradient = False,
     gradientStart = mkColor 1 1 1 1,
     gradientEnd = mkColor 1 1 1 1,
     gradientAngle = 0\<rparr>"

definition TextStyle_init :: TextStyle where
  "TextStyle_init = \<lparr>
     fontFamily = ''sans-serif'',
     fontSize = 14,
     color = mkColor 1 1 1 1,
     bold = False,
     italic = False,
     lineHeight = 1.4,
     align = Align_Left,
     valign = VAlign_Middle\<rparr>"

definition Widget_init :: Widget where
  "Widget_init = \<lparr>
     widthSpec = \<lparr>spec_constraint = Content, spec_value = 0\<rparr>,
     heightSpec = \<lparr>spec_constraint = Content, spec_value = 0\<rparr>,
     style = BoxStyle_init,
     bounds = mkRect 0 0 0 0,
     contentBounds = mkRect 0 0 0 0,
     measuredSize = mkSize 0 0,
     visible = True,
     enabled = True,
     hovered = False,
     focused = False,
     onClickHandler = False,
     onHoverHandler = False,
     onFocusHandler = False\<rparr>"

definition SizeSpec_fixed :: "float \<Rightarrow> SizeSpec" where
  "SizeSpec_fixed v = \<lparr>spec_constraint = Fixed, spec_value = v\<rparr>"

definition SizeSpec_fill :: SizeSpec where
  "SizeSpec_fill = \<lparr>spec_constraint = Fill, spec_value = 0\<rparr>"

definition Color_fromHex :: "32 word \<Rightarrow> Color" where
  "Color_fromHex hex = mkColor
     (real (unat (and (drop_bit 24 hex) 255)) / 255)
     (real (unat (and (drop_bit 16 hex) 255)) / 255)
     (real (unat (and (drop_bit 8 hex) 255)) / 255)
     (real (unat (and hex 255)) / 255)"

definition Text_init :: "string \<Rightarrow> widget" where
  "Text_init txt = Leaf Widget_init
     (KText \<lparr>t_text = txt, t_textStyle = TextStyle_init, t_wrap = False, t_maxWidth = 0\<rparr>)"

definition Button_init :: "string \<Rightarrow> widget" where
  "Button_init label = Leaf
     (Widget_init\<lparr>style := BoxStyle_init\<lparr>
        padding := mkPadding 10 20 10 20,
        borderRadius := \<lparr>topLeftR = 4, topRightR = 4, bottomRightR = 4, bottomLeftR = 4\<rparr>,
        background := Color_fromHex 0x3b82f6ff\<rparr>\<rparr>)
     (KButton \<lparr>btn_label = label,
        btn_textStyle = TextStyle_init\<lparr>color := mkColor 1 1 1 1, fontSize := 14,
                                       align := Align_Center\<rparr>,
        btn_wasHovered = False,
        btn_pressed = False\<rparr>)"

definition TextInput_init :: "string \<Rightarrow> Widget \<times> TextInput" where
  "TextInput_init placeholder =
     (Widget_init\<lparr>style := BoxStyle_init\<lparr>
        padding := mkPadding 8 12 8 12,
        background := mkColor 0.1 0.1 0.1 1,
        borderColor := mkColor 0.3 0.3 0.3 1,
        borderWidth := 1,
        borderRadius := \<lparr>topLeftR = 4, topRightR = 4, bottomRightR = 4, bottomLeftR = 4\<rparr>\<rparr>\<rparr>,
      \<lparr>ti_text = [], ti_placeholder = placeholder,
       ti_textStyle = TextStyle_init\<lparr>fontSize := 14, color := mkColor 1 1 1 1\<rparr>,
       ti_cursorPos = 0, ti_onChangeHandler = False, ti_onSubmitHandler = False\<rparr>)"

definition Slider_init :: "f32 \<Rightarrow> f32 \<Rightarrow> f32 \<Rightarrow> Widget \<times> Slider" where
  "Slider_init mn mx v =
     (Widget_init\<lparr>style := BoxStyle_init\<lparr>
        background := mkColor 0.2 0.2 0.2 1,
        borderRadius := \<lparr>topLeftR = 3, topRightR = 3, bottomRightR = 3, bottomLeftR = 3\<rparr>\<rparr>\<rparr>,
      \<lparr>sl_min = mn, sl_max = mx, sl_value = v, sl_dragging = False,
       sl_onChangeHandler = False\<rparr>)"

definition Spacer_init :: "float \<Rightarrow> widget" where
  "Spacer_init sz = Leaf
     (Widget_init\<lparr>widthSpec := SizeSpec_fixed sz, heightSpec := SizeSpec_fixed sz\<rparr>) KSpacer"

definition Container_init :: "widget list \<Rightarrow> widget" where
  "Container_init cs = Node Widget_init KContainer cs"

definition Box_init :: "Direction \<Rightarrow> widget list \<Rightarrow> widget" where
  "Box_init dir cs = Node Widget_init
     (KBox \<lparr>box_direction = dir, box_spacing = 0, box_alignment = Start,
            box_crossAlignment = Start\<rparr>) cs"

definition ScrollView_init :: "widget list \<Rightarrow> widget" where
  "ScrollView_init cs = Node Widget_init
     (KScrollView \<lparr>sv_scrollDir = Vertical, sv_scrollOffset = mkPoint 0 0\<rparr>) cs"

definition Sidebar_init :: "Position \<Rightarrow> float \<Rightarrow> widget list \<Rightarrow> widget" where
  "Sidebar_init pos sz cs = Node Widget_init
     (KSidebar \<lparr>sb_position = pos, sb_sidebarSize = sz\<rparr>) cs"

subsection \<open>Events and sample inputs of the statements\<close>

text \<open>A press of the left button at a point, and a press of a key that carries a text.\<close>

definition leftPress :: "float \<Rightarrow> float \<Rightarrow> MouseEvent" where
  "leftPress px py = \<lparr>me_position = mkPoint px py, me_delta = mkPoint 0 0,
     me_button = MouseButton_Left, me_pressed = True, me_mods = 0\<rparr>"

definition keyPress :: "32 word \<Rightarrow> string \<Rightarrow> KeyEvent" where
  "keyPress code txt = \<lparr>ke_keycode = code, ke_keysym = 0, ke_pressed = True, ke_mods = 0,
     ke_text = txt\<rparr>"

text \<open>
  A key event inserts one character when it is a press, its key code is none of the codes
  \<^verbatim>\<open>TextInput::handleKeyEvent\<close> treats before the text (backspace 14, delete 111, left 105,
  right 106, enter 28), and its text is one \<^verbatim>\<open>char\<close>.
\<close>

definition isInsertion :: "KeyEvent \<Rightarrow> bool" where
  "isInsertion e \<longleftrightarrow>
     ke_pressed e \<and> ke_keycode e \<noteq> 14 \<and> ke_keycode e \<noteq> 111 \<and> ke_keycode e \<noteq> 105
     \<and> ke_keycode e \<noteq> 106 \<and> ke_keycode e \<noteq> 28 \<and> length (ke_text e) = 1"

definition ex_input_w :: Widget where
  "ex_input_w = (fst (TextInput_init []))\<lparr>focused := True\<rparr>"

definition ex_input_t :: TextInput where
  "ex_input_t = (snd (TextInput_init []))\<lparr>ti_onChangeHandler := True\<rparr>"

definition ex_keys_hi :: "KeyEvent list" where
  "ex_keys_hi = [keyPress 35 ''h'', keyPress 23 ''i'']"

text \<open>
  The fluent setters and the results of a layout pass change members of the base class:
  \<open>withBase f w\<close> is \<open>w\<close> with \<open>f\<close> applied to them.
\<close>

definition withBase :: "(Widget \<Rightarrow> Widget) \<Rightarrow> widget \<Rightarrow> widget" where
  "withBase f w = set_base w (f (base w))"

text \<open>
  A press is consumed by the first child of a container when the container's handler
  returns true and leaves exactly what that child's own handler leaves: the child as its
  handler updated it, its handler calls, and every other child untouched.
\<close>

definition consumedByFirstChild :: "widget \<Rightarrow> MouseEvent \<Rightarrow> bool" where
  "consumedByFirstChild w event =
     (case w of
        Node b k (a # rest) \<Rightarrow>
          handleMouseButton w event =
            (True, Node b k (fst (snd (handleMouseButton a event)) # rest),
             snd (snd (handleMouseButton a event)))
      | _ \<Rightarrow> False)"

text \<open>
  \<open>offered cs event\<close> counts the children that \<^verbatim>\<open>Container::handleMouseButton\<close> hands the
  event to: those before the first child whose handler returns true, and that child.
\<close>

definition offered :: "widget list \<Rightarrow> MouseEvent \<Rightarrow> nat" where
  "offered cs event = Suc (length (takeWhile (\<lambda>c. \<not> fst (handleMouseButton c event)) cs))"

text \<open>Two overlapping buttons with click handlers in a container, both containing (60, 60).\<close>

definition ex_buttonA :: widget where
  "ex_buttonA = withBase (\<lambda>w. w\<lparr>bounds := mkRect 10 10 100 100, onClickHandler := True\<rparr>)
     (Button_init ''A'')"

definition ex_buttonB :: widget where
  "ex_buttonB = withBase (\<lambda>w. w\<lparr>bounds := mkRect 50 50 100 100, onClickHandler := True\<rparr>)
     (Button_init ''B'')"

definition ex_overlap :: widget where
  "ex_overlap = withBase (\<lambda>w. w\<lparr>bounds := mkRect 0 0 200 200\<rparr>)
     (Container_init [ex_buttonA, ex_buttonB])"

definition ex_overlap_disabled :: widget where
  "ex_overlap_disabled = withBase (\<lambda>w. w\<lparr>enabled := False\<rparr>) ex_overlap"

text \<open>A renderer whose fonts always load, and a hidden Text with a layout.\<close>

definition ex_renderer :: Renderer where
  "ex_renderer = \<lparr>rd_loadFont =
     (\<lambda>family size. Some \<lparr>font_measureText = (\<lambda>s. mkSize (real (length s) * 8) 16)\<rparr>)\<rparr>"

definition ex_hiddenText_w :: Widget where
  "ex_hiddenText_w = Widget_init\<lparr>visible := False, bounds := mkRect 0 0 100 20,
     contentBounds := mkRect 0 0 100 20\<rparr>"

definition ex_hiddenText_t :: Text where
  "ex_hiddenText_t = \<lparr>t_text = ''Hi'', t_textStyle = TextStyle_init, t_wrap = False,
     t_maxWidth = 0\<rparr>"

text \<open>
  The Slider \<^verbatim>\<open>Slider(-1.0f, 0.3f)\<close> with the bounds (0, 0, 100, 20); the literal \<^verbatim>\<open>0.3f\<close> is
  the single-precision number nearest to 3/10, and the value starts at the default
  \<^verbatim>\<open>0.5f\<close>.
\<close>

definition ex_slider_w :: Widget where
  "ex_slider_w = (fst (Slider_init (Finite (- 1)) (f32_round (3 / 10)) (Finite (1 / 2))))
     \<lparr>bounds := mkRect 0 0 100 20\<rparr>"

definition ex_slider :: Slider where
  "ex_slider = snd (Slider_init (Finite (- 1)) (f32_round (3 / 10)) (Finite (1 / 2)))"

text \<open>
  The Slider \<^verbatim>\<open>Slider(-3e38f, 3e38f)\<close>; the literal \<^verbatim>\<open>3e38f\<close> is the single-precision
  number 300000000549775575777803994281145270272.
\<close>

definition ex_wide_slider :: Slider where
  "ex_wide_slider = snd (Slider_init (Finite (- 300000000549775575777803994281145270272))
     (Finite 300000000549775575777803994281145270272) (Finite (1 / 2)))"

text \<open>A Sidebar that was given one child only.\<close>

definition ex_sidebar_one :: widget where
  "ex_sidebar_one = withBase (\<lambda>w. w\<lparr>bounds := mkRect 0 0 400 300, contentBounds := mkRect 0 0 400 300\<rparr>)
     (Sidebar_init Position_Left 200 [Text_init ''menu''])"

text \<open>The scroll offset of a ScrollView, a scroll event, and a ScrollView of height 100 around
  a child of height 50.\<close>

definition scrollOffsetOf :: "widget \<Rightarrow> Point option" where
  "scrollOffsetOf w = (case w of Node b (KScrollView s) cs \<Rightarrow> Some (sv_scrollOffset s) | _ \<Rightarrow> None)"

definition scrollEvent :: "float \<Rightarrow> float \<Rightarrow> float \<Rightarrow> float \<Rightarrow> ScrollEvent" where
  "scrollEvent px py dx dy = \<lparr>se_position = mkPoint px py, se_deltaX = dx, se_deltaY = dy\<rparr>"

definition ex_scrollView :: widget where
  "ex_scrollView = withBase (\<lambda>w. w\<lparr>bounds := mkRect 0 0 200 100, contentBounds := mkRect 0 0 200 100\<rparr>)
     (ScrollView_init [Spacer_init 50])"

text \<open>A horizontal Box whose only child has a negative fixed height, and a row of two
  spacers.\<close>

definition ex_negChild :: widget where
  "ex_negChild = Leaf (Widget_init\<lparr>widthSpec := SizeSpec_fixed 10,
     heightSpec := SizeSpec_fixed (-5)\<rparr>) KWidget"

definition ex_box :: widget where
  "ex_box = Box_init Horizontal [ex_negChild]"

definition ex_row :: widget where
  "ex_row = Node Widget_init
     (KBox \<lparr>box_direction = Horizontal, box_spacing = 4, box_alignment = Start,
            box_crossAlignment = Start\<rparr>) [Spacer_init 10, Spacer_init 30]"

text \<open>
  The resolution rules of \<^verbatim>\<open>measure\<close> as the specification words them, one axis at a time,
  from the widget as it is before the call.
\<close>

definition resolvedWidth :: "widget \<Rightarrow> Size \<Rightarrow> float" where
  "resolvedWidth w available =
     (case spec_constraint (widthSpec (base w)) of
        Fixed \<Rightarrow> spec_value (widthSpec (base w))
      | Fill \<Rightarrow> s_width available - horizontal (margin (style (base w)))
      | Percent \<Rightarrow>
          (s_width available - horizontal (margin (style (base w))))
            * (spec_value (widthSpec (base w)) / 100)
      | Content \<Rightarrow>
          s_width (fst (measureContent w
             (mkSize (s_width available - horizontal (margin (style (base w))))
                     (s_height available - vertical (margin (style (base w)))))))
            + horizontal (padding (style (base w))))"

definition resolvedHeight :: "widget \<Rightarrow> Size \<Rightarrow> float" where
  "resolvedHeight w available =
     (case spec_constraint (heightSpec (base w)) of
        Fixed \<Rightarrow> spec_value (heightSpec (base w))
      | Fill \<Rightarrow> s_height available - vertical (margin (style (base w)))
      | Percent \<Rightarrow>
          (s_height available - vertical (margin (style (base w))))
            * (spec_value (heightSpec (base w)) / 100)
      | Content \<Rightarrow>
          s_height (fst (measureContent w
             (mkSize (s_width available - horizontal (margin (style (base w))))
                     (s_height available - vertical (margin (style (base w)))))))
            + vertical (padding (style (base w))))"

section \<open>Properties\<close>

subsection \<open>TextInput: editing with the keyboard\<close>

lemma string_erase_ok:
  "pos \<le> length s \<Longrightarrow> string_erase s pos len = Inr (take pos s @ drop (pos + len) s)"
  by (simp add: string_erase_def)

lemma string_insert_ok:
  "pos \<le> length s \<Longrightarrow> string_insert s pos str = Inr (take pos s @ str @ drop pos s)"
  by (simp add: string_insert_def)

text \<open>The class invariant holds after construction and is kept by every key event.\<close>

lemma TextInput_inv_init: "TextInput_inv (snd (TextInput_init p))"
  by (simp add: TextInput_init_def TextInput_inv_def)

lemma TextInput_inv_preserved:
  "TextInput_inv t \<Longrightarrow> TextInput_handleKeyEvent w t event = Inr (r, t', cbs) \<Longrightarrow> TextInput_inv t'"
  by (auto simp add: TextInput_handleKeyEvent_def TextInput_inv_def string_erase_ok
        string_insert_ok split: if_splits)

lemma TextInput_insert_at_end:
  assumes "focused w" "isInsertion e" "ti_cursorPos t = length (ti_text t)"
  shows "TextInput_handleKeyEvent w t e =
     Inr (True, t\<lparr>ti_text := ti_text t @ ke_text e, ti_cursorPos := Suc (length (ti_text t))\<rparr>,
          if ti_onChangeHandler t then [OnChange (ti_text t @ ke_text e)] else [])"
proof -
  have "ke_text e \<noteq> []" using assms(2) by (auto simp: isInsertion_def)
  then show ?thesis
    using assms by (simp add: TextInput_handleKeyEvent_def isInsertion_def string_insert_ok)
qed

lemma dispatchKeys_insertions:
  assumes "focused w" and "\<forall>e\<in>set es. isInsertion e"
    and "ti_cursorPos t = length (ti_text t)"
  shows "dispatchKeys w t es =
     Inr (t\<lparr>ti_text := ti_text t @ concat (map ke_text es),
            ti_cursorPos := length (ti_text t) + length es\<rparr>,
          if ti_onChangeHandler t
          then map (\<lambda>i. OnChange (ti_text t @ take (Suc i) (concat (map ke_text es))))
                 [0..<length es]
          else [])"
  using assms(2,3)
proof (induction es arbitrary: t)
  case Nil
  then show ?case by simp
next
  case (Cons e es)
  let ?t' = "t\<lparr>ti_text := ti_text t @ ke_text e, ti_cursorPos := Suc (length (ti_text t))\<rparr>"
  have e: "isInsertion e" and es: "\<forall>e\<in>set es. isInsertion e" using Cons.prems(1) by simp_all
  have len: "length (ke_text e) = 1" using e by (simp add: isInsertion_def)
  have step: "TextInput_handleKeyEvent w t e =
      Inr (True, ?t', if ti_onChangeHandler t then [OnChange (ti_text t @ ke_text e)] else [])"
    using TextInput_insert_at_end[OF assms(1) e Cons.prems(2)] .
  have cur: "ti_cursorPos ?t' = length (ti_text ?t')" using len by simp
  have rest: "dispatchKeys w ?t' es =
      Inr (?t'\<lparr>ti_text := ti_text ?t' @ concat (map ke_text es),
               ti_cursorPos := length (ti_text ?t') + length es\<rparr>,
           if ti_onChangeHandler ?t'
           then map (\<lambda>i. OnChange (ti_text ?t' @ take (Suc i) (concat (map ke_text es))))
                  [0..<length es]
           else [])"
    using Cons.IH[OF es cur] .
  have "dispatchKeys w t (e # es) =
      (case dispatchKeys w ?t' es of
         Inl err \<Rightarrow> Inl err
       | Inr (t'', cbs') \<Rightarrow>
           Inr (t'', (if ti_onChangeHandler t then [OnChange (ti_text t @ ke_text e)] else [])
                       @ cbs'))"
    by (simp add: step)
  also have "\<dots> =
      Inr (t\<lparr>ti_text := ti_text t @ concat (map ke_text (e # es)),
             ti_cursorPos := length (ti_text t) + length (e # es)\<rparr>,
           if ti_onChangeHandler t
           then map (\<lambda>i. OnChange (ti_text t @ take (Suc i) (concat (map ke_text (e # es)))))
                  [0..<length (e # es)]
           else [])"
    unfolding rest using len by (simp add: map_upt_Suc del: upt_Suc)
  finally show ?case .
qed

lemma TextInput_backspace:
  assumes "focused w" "ke_pressed e" "ke_keycode e = 14" "TextInput_inv t"
  shows "TextInput_handleKeyEvent w t e =
     (if ti_cursorPos t > 0
      then Inr (True,
             t\<lparr>ti_text := take (ti_cursorPos t - 1) (ti_text t) @ drop (ti_cursorPos t) (ti_text t),
               ti_cursorPos := ti_cursorPos t - 1\<rparr>,
             if ti_onChangeHandler t
             then [OnChange (take (ti_cursorPos t - 1) (ti_text t) @ drop (ti_cursorPos t) (ti_text t))]
             else [])
      else Inr (True, t, []))"
  using assms by (simp add: TextInput_handleKeyEvent_def TextInput_inv_def string_erase_ok)

lemma TextInput_delete:
  assumes "focused w" "ke_pressed e" "ke_keycode e = 111"
  shows "TextInput_handleKeyEvent w t e =
     (if ti_cursorPos t < length (ti_text t)
      then Inr (True,
             t\<lparr>ti_text := take (ti_cursorPos t) (ti_text t) @ drop (Suc (ti_cursorPos t)) (ti_text t)\<rparr>,
             if ti_onChangeHandler t
             then [OnChange (take (ti_cursorPos t) (ti_text t) @ drop (Suc (ti_cursorPos t)) (ti_text t))]
             else [])
      else Inr (True, t, []))"
  using assms by (simp add: TextInput_handleKeyEvent_def string_erase_ok)

lemma erase_changes: "c < length s \<Longrightarrow> take c s @ drop (Suc c) s \<noteq> s"
proof
  assume c: "c < length s" and eq: "take c s @ drop (Suc c) s = s"
  have "length (take c s @ drop (Suc c) s) = length s - 1" using c by simp
  then show False using eq c by simp
qed

lemma TextInput_onChange_count:
  assumes "focused w" "TextInput_inv s" "ti_onChangeHandler s" "ke_pressed e"
  shows "(ke_keycode e = 105 \<or> ke_keycode e = 106 \<longrightarrow>
            (\<exists>s'. TextInput_handleKeyEvent w s e = Inr (True, s', []) \<and> ti_text s' = ti_text s))
       \<and> (ke_keycode e = 14 \<or> ke_keycode e = 111 \<longrightarrow>
            (\<exists>s' log. TextInput_handleKeyEvent w s e = Inr (True, s', log)
               \<and> (if ti_text s' = ti_text s then log = [] else log = [OnChange (ti_text s')])))"
proof (intro conjI impI)
  assume "ke_keycode e = 105 \<or> ke_keycode e = 106"
  then show "\<exists>s'. TextInput_handleKeyEvent w s e = Inr (True, s', []) \<and> ti_text s' = ti_text s"
    using assms by (auto simp add: TextInput_handleKeyEvent_def)
next
  assume k: "ke_keycode e = 14 \<or> ke_keycode e = 111"
  show "\<exists>s' log. TextInput_handleKeyEvent w s e = Inr (True, s', log)
          \<and> (if ti_text s' = ti_text s then log = [] else log = [OnChange (ti_text s')])"
  proof (cases "ke_keycode e = 14")
    case True
    show ?thesis
    proof (cases "ti_cursorPos s > 0")
      case False
      then show ?thesis
        using TextInput_backspace[OF assms(1) assms(4) True assms(2)] by simp
    next
      case pos: True
      then have "ti_cursorPos s - 1 < length (ti_text s)"
        using assms(2) by (simp add: TextInput_inv_def)
      from erase_changes[OF this] pos
      have "take (ti_cursorPos s - 1) (ti_text s) @ drop (ti_cursorPos s) (ti_text s) \<noteq> ti_text s"
        by simp
      then show ?thesis
        using TextInput_backspace[OF assms(1) assms(4) True assms(2)] pos assms(3) by simp
    qed
  next
    case False
    then have d: "ke_keycode e = 111" using k by simp
    show ?thesis
    proof (cases "ti_cursorPos s < length (ti_text s)")
      case False
      then show ?thesis using TextInput_delete[OF assms(1) assms(4) d, of s] by simp
    next
      case True
      from erase_changes[OF this] show ?thesis
        using TextInput_delete[OF assms(1) assms(4) d, of s] True assms(3) by simp
    qed
  qed
qed

text \<open>
  Claim C5 (TextInput editing round trip). Start from an empty, focused TextInput with the
  cursor at 0 and an \<^verbatim>\<open>onChange\<close> handler. Dispatching \<open>k\<close> key events that each insert one
  character leaves the buffer equal to the characters in order and the cursor at \<open>k\<close>, and
  the handler is called exactly once per insertion, with the buffer after it. A backspace
  after that (for \<open>k \<ge> 1\<close>) leaves a buffer of length \<open>k - 1\<close> (the buffer without its
  last character) and the cursor at \<open>k - 1\<close>, with one more call of the handler. In every
  state of the widget, a backspace or delete that changes the buffer calls the handler
  exactly once and one that changes nothing calls it not at all, and a left or right
  arrow never calls it and leaves the buffer as it is.
\<close>

theorem TextInput_round_trip:
  assumes "focused w" and "ti_text t = []" and "ti_cursorPos t = 0" and "ti_onChangeHandler t"
    and "\<forall>e\<in>set es. isInsertion e"
    and "ke_pressed bs" and "ke_keycode bs = 14"
  shows "(\<exists>t1. dispatchKeys w t es =
            Inr (t1, map (\<lambda>i. OnChange (take (Suc i) (concat (map ke_text es)))) [0..<length es])
          \<and> ti_text t1 = concat (map ke_text es)
          \<and> ti_cursorPos t1 = length es
          \<and> (es \<noteq> [] \<longrightarrow>
               (\<exists>t2. TextInput_handleKeyEvent w t1 bs = Inr (True, t2, [OnChange (ti_text t2)])
                  \<and> ti_text t2 = butlast (concat (map ke_text es))
                  \<and> length (ti_text t2) = length es - 1
                  \<and> ti_cursorPos t2 = length es - 1)))
       \<and> (\<forall>s e. TextInput_inv s \<and> ti_onChangeHandler s \<and> ke_pressed e \<longrightarrow>
            (ke_keycode e = 105 \<or> ke_keycode e = 106 \<longrightarrow>
               (\<exists>s'. TextInput_handleKeyEvent w s e = Inr (True, s', [])
                  \<and> ti_text s' = ti_text s))
          \<and> (ke_keycode e = 14 \<or> ke_keycode e = 111 \<longrightarrow>
               (\<exists>s' log. TextInput_handleKeyEvent w s e = Inr (True, s', log)
                  \<and> (if ti_text s' = ti_text s then log = []
                      else log = [OnChange (ti_text s')]))))"
proof (rule conjI)
  let ?typed = "concat (map ke_text es)"
  let ?t1 = "t\<lparr>ti_text := ?typed, ti_cursorPos := length es\<rparr>"
  have len: "length ?typed = length es"
    using assms(5) by (induction es) (simp_all add: isInsertion_def)
  have d: "dispatchKeys w t es =
      Inr (?t1, map (\<lambda>i. OnChange (take (Suc i) ?typed)) [0..<length es])"
    using dispatchKeys_insertions[OF assms(1) assms(5), of t] assms(2,3,4) by simp
  have inv: "TextInput_inv ?t1" by (simp add: TextInput_inv_def len)
  have bs: "es \<noteq> [] \<Longrightarrow> TextInput_handleKeyEvent w ?t1 bs =
      Inr (True, ?t1\<lparr>ti_text := butlast ?typed, ti_cursorPos := length es - 1\<rparr>,
           [OnChange (butlast ?typed)])"
    using TextInput_backspace[OF assms(1) assms(6) assms(7) inv] assms(4) len
    by (simp add: butlast_conv_take)
  show "\<exists>t1. dispatchKeys w t es =
            Inr (t1, map (\<lambda>i. OnChange (take (Suc i) ?typed)) [0..<length es])
          \<and> ti_text t1 = ?typed
          \<and> ti_cursorPos t1 = length es
          \<and> (es \<noteq> [] \<longrightarrow>
               (\<exists>t2. TextInput_handleKeyEvent w t1 bs = Inr (True, t2, [OnChange (ti_text t2)])
                  \<and> ti_text t2 = butlast ?typed
                  \<and> length (ti_text t2) = length es - 1
                  \<and> ti_cursorPos t2 = length es - 1))"
    using d bs len by (intro exI[of _ ?t1]) auto
next
  show "\<forall>s e. TextInput_inv s \<and> ti_onChangeHandler s \<and> ke_pressed e \<longrightarrow>
            (ke_keycode e = 105 \<or> ke_keycode e = 106 \<longrightarrow>
               (\<exists>s'. TextInput_handleKeyEvent w s e = Inr (True, s', [])
                  \<and> ti_text s' = ti_text s))
          \<and> (ke_keycode e = 14 \<or> ke_keycode e = 111 \<longrightarrow>
               (\<exists>s' log. TextInput_handleKeyEvent w s e = Inr (True, s', log)
                  \<and> (if ti_text s' = ti_text s then log = []
                      else log = [OnChange (ti_text s')])))"
    using TextInput_onChange_count[OF assms(1)] by blast
qed

theorem TextInput_round_trip_witness:
  "focused ex_input_w \<and> ti_text ex_input_t = [] \<and> ti_cursorPos ex_input_t = 0
   \<and> ti_onChangeHandler ex_input_t
   \<and> list_all isInsertion ex_keys_hi
   \<and> ke_pressed (keyPress 14 []) \<and> ke_keycode (keyPress 14 []) = 14
   \<and> (\<exists>t1. dispatchKeys ex_input_w ex_input_t ex_keys_hi
              = Inr (t1, [OnChange ''h'', OnChange ''hi''])
          \<and> ti_text t1 = ''hi'' \<and> ti_cursorPos t1 = 2
          \<and> (\<exists>t2. TextInput_handleKeyEvent ex_input_w t1 (keyPress 14 [])
                     = Inr (True, t2, [OnChange (ti_text t2)])
                 \<and> ti_text t2 = ''h'' \<and> ti_cursorPos t2 = 1))
   \<and> TextInput_inv ex_input_t \<and> ke_keycode (keyPress 105 []) = 105
   \<and> (\<exists>s'. TextInput_handleKeyEvent ex_input_w ex_input_t (keyPress 105 []) = Inr (True, s', [])
          \<and> ti_text s' = ti_text ex_input_t)"
proof -
  have h1: "focused ex_input_w" by (simp add: ex_input_w_def)
  have h2: "ti_text ex_input_t = []" by (simp add: ex_input_t_def TextInput_init_def)
  have h3: "ti_cursorPos ex_input_t = 0" by (simp add: ex_input_t_def TextInput_init_def)
  have h4: "ti_onChangeHandler ex_input_t" by (simp add: ex_input_t_def)
  have i1: "isInsertion (keyPress 35 ''h'')" and i2: "isInsertion (keyPress 23 ''i'')"
    by (simp_all add: isInsertion_def keyPress_def)
  have ins: "\<forall>e\<in>set ex_keys_hi. isInsertion e" using i1 i2 by (simp add: ex_keys_hi_def)
  have ins': "list_all isInsertion ex_keys_hi" using i1 i2 by (simp add: ex_keys_hi_def)
  have h6: "ke_pressed (keyPress 14 [])" and h7: "ke_keycode (keyPress 14 []) = 14"
    by (simp_all add: keyPress_def)
  have typed: "concat (map ke_text ex_keys_hi) = ''hi''" by (simp add: ex_keys_hi_def keyPress_def)
  have len: "length ex_keys_hi = 2" by (simp add: ex_keys_hi_def)
  have upt2: "[0..<2] = [0, Suc 0]" by (simp add: upt_rec)
  have ne: "ex_keys_hi \<noteq> []" by (simp add: ex_keys_hi_def)
  have inv: "TextInput_inv ex_input_t" using h2 h3 by (simp add: TextInput_inv_def)
  have a1: "ke_pressed (keyPress 105 [])" and a2: "ke_keycode (keyPress 105 []) = 105"
    by (simp_all add: keyPress_def)
  note th = TextInput_round_trip[OF h1 h2 h3 h4 ins h6 h7]
  from th[THEN conjunct1]
  obtain t1 where d: "dispatchKeys ex_input_w ex_input_t ex_keys_hi
        = Inr (t1, map (\<lambda>i. OnChange (take (Suc i) (concat (map ke_text ex_keys_hi))))
                     [0..<length ex_keys_hi])"
    and t1: "ti_text t1 = concat (map ke_text ex_keys_hi)" "ti_cursorPos t1 = length ex_keys_hi"
    and b: "ex_keys_hi \<noteq> [] \<longrightarrow>
               (\<exists>t2. TextInput_handleKeyEvent ex_input_w t1 (keyPress 14 [])
                        = Inr (True, t2, [OnChange (ti_text t2)])
                  \<and> ti_text t2 = butlast (concat (map ke_text ex_keys_hi))
                  \<and> length (ti_text t2) = length ex_keys_hi - 1
                  \<and> ti_cursorPos t2 = length ex_keys_hi - 1)"
    by (elim exE conjE)
  from b ne obtain t2 where
    t2: "TextInput_handleKeyEvent ex_input_w t1 (keyPress 14 [])
           = Inr (True, t2, [OnChange (ti_text t2)])"
      "ti_text t2 = butlast (concat (map ke_text ex_keys_hi))"
      "ti_cursorPos t2 = length ex_keys_hi - 1"
    by (elim impE exE conjE)
  have d': "dispatchKeys ex_input_w ex_input_t ex_keys_hi = Inr (t1, [OnChange ''h'', OnChange ''hi''])"
    using d unfolding typed len upt2 by simp
  have t1': "ti_text t1 = ''hi''" "ti_cursorPos t1 = 2" using t1 by (simp_all add: typed len)
  have t2': "ti_text t2 = ''h''" "ti_cursorPos t2 = 1" using t2(2,3) by (simp_all add: typed len)
  have inner: "\<exists>t2. TextInput_handleKeyEvent ex_input_w t1 (keyPress 14 [])
                     = Inr (True, t2, [OnChange (ti_text t2)])
                 \<and> ti_text t2 = ''h'' \<and> ti_cursorPos t2 = 1"
    using t2(1) t2' by (intro exI[of _ t2] conjI)
  have outer: "\<exists>t1. dispatchKeys ex_input_w ex_input_t ex_keys_hi
              = Inr (t1, [OnChange ''h'', OnChange ''hi''])
          \<and> ti_text t1 = ''hi'' \<and> ti_cursorPos t1 = 2
          \<and> (\<exists>t2. TextInput_handleKeyEvent ex_input_w t1 (keyPress 14 [])
                     = Inr (True, t2, [OnChange (ti_text t2)])
                 \<and> ti_text t2 = ''h'' \<and> ti_cursorPos t2 = 1)"
    using d' t1' inner by blast
  have arrow: "\<exists>s'. TextInput_handleKeyEvent ex_input_w ex_input_t (keyPress 105 [])
                 = Inr (True, s', []) \<and> ti_text s' = ti_text ex_input_t"
    using th[THEN conjunct2, rule_format, of ex_input_t "keyPress 105 []"] inv h4 a1 a2
    by blast
  show ?thesis
    using h1 h2 h3 h4 ins' h6 h7 outer inv a2 arrow by (intro conjI)
qed

text \<open>
  Claim C9 (a focused TextInput consumes every key event). For every TextInput (its cursor
  within the buffer, as the class keeps it) and every key event, press or release, handled
  key or not: when the widget is focused the handler returns true, and when it is not
  focused the handler returns false, calls no handler and leaves buffer and cursor as they
  are.
\<close>

theorem TextInput_focused_consumes_keys:
  "TextInput_inv t \<Longrightarrow>
   (focused w \<longrightarrow> (\<exists>t' cbs. TextInput_handleKeyEvent w t event = Inr (True, t', cbs)))
   \<and> (\<not> focused w \<longrightarrow> TextInput_handleKeyEvent w t event = Inr (False, t, []))"
  by (simp add: TextInput_handleKeyEvent_def TextInput_inv_def string_erase_ok string_insert_ok)

theorem TextInput_focused_consumes_keys_witness:
  "TextInput_inv (snd (TextInput_init ''name''))
   \<and> focused ((fst (TextInput_init ''name''))\<lparr>focused := True\<rparr>)
   \<and> (\<exists>t' cbs. TextInput_handleKeyEvent ((fst (TextInput_init ''name''))\<lparr>focused := True\<rparr>)
         (snd (TextInput_init ''name'')) (keyPress 59 []) = Inr (True, t', cbs))
   \<and> \<not> focused (fst (TextInput_init ''name''))
   \<and> TextInput_handleKeyEvent (fst (TextInput_init ''name''))
         (snd (TextInput_init ''name'')) (keyPress 30 ''a'')
       = Inr (False, snd (TextInput_init ''name''), [])"
  using TextInput_focused_consumes_keys
      [of "snd (TextInput_init ''name'')" "(fst (TextInput_init ''name''))\<lparr>focused := True\<rparr>"
          "keyPress 59 []"]
    TextInput_focused_consumes_keys
      [of "snd (TextInput_init ''name'')" "fst (TextInput_init ''name'')" "keyPress 30 ''a''"]
  by (simp add: TextInput_inv_def TextInput_init_def Widget_init_def)

subsection \<open>Button: the pressed flag\<close>

text \<open>
  Claim C10 (a disabled Button still updates its pressed flag). For every Button with
  \<^verbatim>\<open>enabled=false\<close> and every mouse-button event, \<^verbatim>\<open>handleMouseButton\<close> returns false and
  calls no handler, and the button it leaves has \<^verbatim>\<open>pressed_\<close> set to
  (event.pressed and bounds contain the position): the disabled path is not a no-op.
\<close>

theorem Button_disabled_sets_pressed:
  "\<not> enabled w \<Longrightarrow>
   Button_handleMouseButton w b event =
     (False, b\<lparr>btn_pressed := me_pressed event \<and> contains (bounds w) (me_position event)\<rparr>, [])
   \<and> handleMouseButton (Leaf w (KButton b)) event =
     (False,
      Leaf w (KButton (b\<lparr>btn_pressed := me_pressed event \<and> contains (bounds w) (me_position event)\<rparr>)),
      [])"
  by (simp add: Button_handleMouseButton_def Widget_handleMouseButton_def)

theorem Button_disabled_sets_pressed_witness:
  "\<not> enabled (Widget_init\<lparr>enabled := False, bounds := mkRect 0 0 100 40\<rparr>)
   \<and> Button_handleMouseButton (Widget_init\<lparr>enabled := False, bounds := mkRect 0 0 100 40\<rparr>)
       \<lparr>btn_label = ''OK'', btn_textStyle = TextStyle_init, btn_wasHovered = False,
        btn_pressed = False\<rparr> (leftPress 10 10)
     = (False,
        \<lparr>btn_label = ''OK'', btn_textStyle = TextStyle_init, btn_wasHovered = False,
         btn_pressed = True\<rparr>, [])"
  using Button_disabled_sets_pressed
    [of "Widget_init\<lparr>enabled := False, bounds := mkRect 0 0 100 40\<rparr>"
        "\<lparr>btn_label = ''OK'', btn_textStyle = TextStyle_init, btn_wasHovered = False,
          btn_pressed = False\<rparr>" "leftPress 10 10"]
  by (simp add: Widget_init_def leftPress_def contains_def mkRect_def mkPoint_def)

subsection \<open>Slider: the value under the pointer\<close>

text \<open>Rounding at a known exponent, for the evaluation of the operations.\<close>

lemma ilog2_eqI: "2 ^ e \<le> n \<Longrightarrow> n < 2 ^ Suc e \<Longrightarrow> ilog2 n = e"
proof (induction e arbitrary: n)
  case 0
  then have "n = 1" by simp
  then show ?case by (simp add: ilog2.simps)
next
  case (Suc e)
  have "2 ^ e \<le> n div 2" using Suc.prems(1) by simp
  moreover have "n div 2 < 2 ^ Suc e" using Suc.prems(2) by simp
  ultimately have "ilog2 (n div 2) = e" by (rule Suc.IH)
  moreover have "(2::nat) \<le> 2 ^ Suc e" by simp
  then have "\<not> n < 2" using Suc.prems(1) by linarith
  ultimately show ?case by (subst ilog2.simps) simp
qed

lemma f32_round_at:
  assumes "2 ^ e \<le> nat \<lfloor>\<bar>r\<bar> * 2 ^ 149\<rfloor>" and "nat \<lfloor>\<bar>r\<bar> * 2 ^ 149\<rfloor> < 2 ^ Suc e"
  shows "f32_round r =
     (if 2 ^ 128 \<le> f32_quantize e \<bar>r\<bar> then f32_inf (r < 0)
      else if f32_quantize e \<bar>r\<bar> = 0 then f32_zero (r < 0)
      else Finite (if r < 0 then - f32_quantize e \<bar>r\<bar> else f32_quantize e \<bar>r\<bar>))"
proof -
  have e: "ilog2 (nat \<lfloor>\<bar>r\<bar> * 2 ^ 149\<rfloor>) = e"
    by (rule ilog2_eqI[OF assms])
  show ?thesis
    unfolding f32_round_def f32_round_mag_def Let_def e by (rule refl)
qed

lemmas f32_ops = f32_add_def f32_sub_def f32_mul_def f32_div_def f32_neg_def f32_val_def
  f32_sign_def f32_is_inf_def f32_is_zero_def f32_inf_def f32_zero_def f32_less_def f32_clamp_def

text \<open>The literal \<^verbatim>\<open>0.3f\<close>, and the five operations of \<^verbatim>\<open>updateValue\<close> at the right edge.\<close>

lemma f32_round_3_10: "f32_round (3 / 10) = Finite (5033165 / 16777216)"
  by (subst f32_round_at[where e = 147]) (simp_all add: f32_quantize_def Let_def)

lemma f32_sub_100_0: "f32_sub (Finite 100) (Finite 0) = Finite 100"
  by (simp add: f32_ops) (subst f32_round_at[where e = 155], simp_all add: f32_quantize_def Let_def)

lemma f32_div_100_100: "f32_div (Finite 100) (Finite 100) = Finite 1"
  by (simp add: f32_ops) (subst f32_round_at[where e = 149], simp_all add: f32_quantize_def Let_def)

lemma f32_sub_max_min:
  "f32_sub (Finite (5033165 / 16777216)) (Finite (- 1)) = Finite (5452595 / 4194304)"
  by (simp add: f32_ops) (subst f32_round_at[where e = 149], simp_all add: f32_quantize_def Let_def)

lemma f32_mul_1_diff:
  "f32_mul (Finite 1) (Finite (5452595 / 4194304)) = Finite (5452595 / 4194304)"
  by (simp add: f32_ops) (subst f32_round_at[where e = 149], simp_all add: f32_quantize_def Let_def)

lemma f32_add_min_diff:
  "f32_add (Finite (- 1)) (Finite (5452595 / 4194304)) = Finite (1258291 / 4194304)"
  by (simp add: f32_ops) (subst f32_round_at[where e = 147], simp_all add: f32_quantize_def Let_def)

text \<open>
  Claim C6 (the Slider value mapping is clamped and monotone) says that the value is
  \<open>max\<close> whenever \<open>mouseX \<ge> bounds.x + bounds.width\<close>. In single precision it is not: for
  \<^verbatim>\<open>Slider(-1.0f, 0.3f)\<close> with the bounds (0, 0, 100, 20) and \<open>mouseX = 100\<close>, the right edge,
  \<^verbatim>\<open>normalized\<close> is 1, \<^verbatim>\<open>max - min\<close> is a tie between two neighbours and rounds down to
  5452595/4194304, and \<^verbatim>\<open>min\<close> plus that is 1258291/4194304, which lies in the range and
  which \<^verbatim>\<open>std::clamp\<close> leaves as it is: the new value is below \<open>max = 5033165/16777216\<close>.
  The hypotheses of the claim hold: \<open>min < max\<close> and the width is positive.
\<close>

theorem Slider_right_edge_below_max:
  "sl_min ex_slider = Finite (- 1)
   \<and> sl_max ex_slider = Finite (5033165 / 16777216)
   \<and> f32_less (sl_min ex_slider) (sl_max ex_slider)
   \<and> 0 < r_width (bounds ex_slider_w)
   \<and> r_x (bounds ex_slider_w) + r_width (bounds ex_slider_w) \<le> 100
   \<and> Slider_updateValue ex_slider_w ex_slider 100
       = (ex_slider\<lparr>sl_value := Finite (1258291 / 4194304)\<rparr>, [])
   \<and> f32_less (Finite (1258291 / 4194304)) (sl_max ex_slider)"
proof -
  have mn: "sl_min ex_slider = Finite (- 1)"
    by (simp add: ex_slider_def Slider_init_def)
  have mx: "sl_max ex_slider = Finite (5033165 / 16777216)"
    by (simp add: ex_slider_def Slider_init_def f32_round_3_10)
  have h: "sl_onChangeHandler ex_slider = False"
    by (simp add: ex_slider_def Slider_init_def)
  have b: "r_x (bounds ex_slider_w) = 0" "r_width (bounds ex_slider_w) = 100"
    by (simp_all add: ex_slider_w_def mkRect_def)
  have lt: "f32_less (Finite (- 1)) (Finite (5033165 / 16777216))"
    by (simp add: f32_less_def f32_val_def)
  have below: "f32_less (Finite (1258291 / 4194304)) (Finite (5033165 / 16777216))"
    by (simp add: f32_less_def f32_val_def)
  have c: "f32_clamp (Finite (1258291 / 4194304)) (Finite (- 1)) (Finite (5033165 / 16777216))
      = Finite (1258291 / 4194304)"
    by (simp add: f32_clamp_def f32_less_def f32_val_def)
  have u: "Slider_updateValue ex_slider_w ex_slider 100
      = (ex_slider\<lparr>sl_value := Finite (1258291 / 4194304)\<rparr>, [])"
    by (simp add: Slider_updateValue_def Let_def mn mx h b f32_sub_100_0 f32_div_100_100
          f32_sub_max_min f32_mul_1_diff f32_add_min_diff c)
  show ?thesis
    using mn mx lt below u by (simp add: b)
qed

text \<open>
  A range whose width is not a single-precision number gives no value at all: for
  \<^verbatim>\<open>Slider(-3e38f, 3e38f)\<close> and \<open>mouseX = bounds.x\<close>, \<^verbatim>\<open>max - min\<close> is infinite, its product
  with \<^verbatim>\<open>normalized = 0\<close> is a NaN, and so is the new value.
\<close>

lemma f32_round_3e38: "f32_round (3 * 10 ^ 38) = Finite 300000000549775575777803994281145270272"
  by (subst f32_round_at[where e = 276]) (simp_all add: f32_quantize_def Let_def)

lemma Slider_wide_range_nan:
  "sl_value (fst (Slider_updateValue ex_slider_w ex_wide_slider 0)) = NaN"
proof -
  have mn: "sl_min ex_wide_slider = Finite (- 300000000549775575777803994281145270272)"
    and mx: "sl_max ex_wide_slider = Finite 300000000549775575777803994281145270272"
    by (simp_all add: ex_wide_slider_def Slider_init_def)
  have b: "r_x (bounds ex_slider_w) = 0" "r_width (bounds ex_slider_w) = 100"
    by (simp_all add: ex_slider_w_def mkRect_def)
  have n: "f32_div (f32_sub (Finite 0) (Finite 0)) (Finite 100) = Finite 0"
    by (simp add: f32_ops)
  have d: "f32_sub (Finite 300000000549775575777803994281145270272)
      (Finite (- 300000000549775575777803994281145270272)) = PosInf"
    by (simp add: f32_ops)
       (subst f32_round_at[where e = 277], simp_all add: f32_quantize_def Let_def f32_inf_def)
  have p: "f32_mul (Finite 0) PosInf = NaN"
    by (simp add: f32_ops)
  have a: "f32_add (Finite (- 300000000549775575777803994281145270272)) NaN = NaN"
    by (simp add: f32_ops)
  have c: "f32_clamp NaN (Finite (- 300000000549775575777803994281145270272))
      (Finite 300000000549775575777803994281145270272) = NaN"
    by (simp add: f32_clamp_def f32_less_def)
  have "sl_value (fst (Slider_updateValue ex_slider_w ex_wide_slider 0))
      = f32_clamp (f32_add (sl_min ex_wide_slider)
          (f32_mul (f32_div (f32_sub (Finite 0) (Finite (r_x (bounds ex_slider_w))))
                      (Finite (r_width (bounds ex_slider_w))))
             (f32_sub (sl_max ex_wide_slider) (sl_min ex_wide_slider))))
          (sl_min ex_wide_slider) (sl_max ex_wide_slider)"
    by (simp add: Slider_updateValue_def Let_def)
  also have "\<dots> = NaN"
    unfolding mn mx b n d p a c by (rule refl)
  finally show ?thesis .
qed

subsection \<open>Container: hit testing\<close>

lemma Container_children_closed_form:
  "Container_handleMouseButton_children cs event =
     (offered cs event \<le> length cs,
      map (\<lambda>c. fst (snd (handleMouseButton c event))) (take (offered cs event) cs)
        @ drop (offered cs event) cs,
      concat (map (\<lambda>c. snd (snd (handleMouseButton c event))) (take (offered cs event) cs)))"
proof (induction cs)
  case Nil
  then show ?case by (simp add: offered_def)
next
  case (Cons c cs)
  obtain r c' cbs where c: "handleMouseButton c event = (r, c', cbs)"
    by (cases "handleMouseButton c event")
  show ?case
  proof (cases r)
    case True
    then show ?thesis using c by (simp add: offered_def)
  next
    case False
    have o: "offered (c # cs) event = Suc (offered cs event)"
      using c False by (simp add: offered_def)
    show ?thesis using c False Cons.IH by (simp add: o)
  qed
qed

lemma consumes_when_enabled_inside:
  assumes "enabled (base a)" "contains (bounds (base a)) (me_position event)"
    "me_pressed event" "me_button event = MouseButton_Left"
  shows "fst (handleMouseButton a event)"
proof (cases a)
  case (Leaf w k)
  then show ?thesis
    using assms
    by (cases k)
       (simp_all add: Widget_handleMouseButton_def Button_handleMouseButton_def
          TextInput_handleMouseButton_def Slider_handleMouseButton_def
          Checkbox_handleMouseButton_def split_beta)
next
  case (Node w k cs)
  then show ?thesis using assms by (simp add: Widget_handleMouseButton_def)
qed

text \<open>
  Claim C1, as the code has it (Container hit testing: the container first, then the children
  in insertion order). For every container, \<^verbatim>\<open>handleMouseButton\<close> first applies the base
  Widget behaviour to the container itself; when that consumes the event (the container is
  enabled and the event is a left-button press inside its own bounds) no child is offered
  the event. Otherwise the children are offered the event in insertion order up to and
  including the first child that returns true, and the children after it are untouched. In
  particular, for children A (added first) and B (added second) and a left-button press at
  a point inside both: when the container itself does not consume the press (it is disabled,
  or the point lies outside its own bounds) and A is enabled, the press is consumed by A
  and B is never offered it.
\<close>

theorem Container_hit_testing:
  "handleMouseButton (Node w k cs) event =
     (if fst (Widget_handleMouseButton w event)
      then (True, Node w k cs, snd (Widget_handleMouseButton w event))
      else (offered cs event \<le> length cs,
            Node w k (map (\<lambda>c. fst (snd (handleMouseButton c event))) (take (offered cs event) cs)
                        @ drop (offered cs event) cs),
            concat (map (\<lambda>c. snd (snd (handleMouseButton c event))) (take (offered cs event) cs))))
   \<and> ((\<not> enabled w \<or> \<not> contains (bounds w) (me_position event))
        \<and> me_pressed event \<and> me_button event = MouseButton_Left
        \<and> enabled (base a) \<and> contains (bounds (base a)) (me_position event)
        \<and> contains (bounds (base b)) (me_position event)
      \<longrightarrow> consumedByFirstChild (Node w k (a # b # rest)) event)"
proof (rule conjI)
  show "handleMouseButton (Node w k cs) event =
     (if fst (Widget_handleMouseButton w event)
      then (True, Node w k cs, snd (Widget_handleMouseButton w event))
      else (offered cs event \<le> length cs,
            Node w k (map (\<lambda>c. fst (snd (handleMouseButton c event))) (take (offered cs event) cs)
                        @ drop (offered cs event) cs),
            concat (map (\<lambda>c. snd (snd (handleMouseButton c event))) (take (offered cs event) cs))))"
    by (cases "Widget_handleMouseButton w event")
       (auto simp add: Container_children_closed_form Widget_handleMouseButton_def
          split: if_splits)
next
  show "(\<not> enabled w \<or> \<not> contains (bounds w) (me_position event))
        \<and> me_pressed event \<and> me_button event = MouseButton_Left
        \<and> enabled (base a) \<and> contains (bounds (base a)) (me_position event)
        \<and> contains (bounds (base b)) (me_position event)
      \<longrightarrow> consumedByFirstChild (Node w k (a # b # rest)) event"
  proof
    assume h: "(\<not> enabled w \<or> \<not> contains (bounds w) (me_position event))
        \<and> me_pressed event \<and> me_button event = MouseButton_Left
        \<and> enabled (base a) \<and> contains (bounds (base a)) (me_position event)
        \<and> contains (bounds (base b)) (me_position event)"
    then have self: "Widget_handleMouseButton w event = (False, [])"
      by (auto simp add: Widget_handleMouseButton_def)
    have a: "fst (handleMouseButton a event)"
      using h consumes_when_enabled_inside by blast
    obtain r a' cbs where ha: "handleMouseButton a event = (r, a', cbs)"
      by (cases "handleMouseButton a event")
    then have r using a by simp
    then show "consumedByFirstChild (Node w k (a # b # rest)) event"
      using self ha by (simp add: consumedByFirstChild_def)
  qed
qed

text \<open>
  Claim C1 as it was stated fails where the container itself takes the press: an enabled
  container whose bounds contain the point consumes the press before any child sees it.
  Both buttons are enabled and contain (60, 60); button A alone would consume the press
  and call its click handler; inside the enabled container neither button changes and no
  handler is called.
\<close>

theorem Container_consumes_before_children:
  "enabled (base ex_buttonA) \<and> enabled (base ex_buttonB)
   \<and> contains (bounds (base ex_buttonA)) (me_position (leftPress 60 60))
   \<and> contains (bounds (base ex_buttonB)) (me_position (leftPress 60 60))
   \<and> handleMouseButton ex_overlap (leftPress 60 60) = (True, ex_overlap, [])
   \<and> snd (snd (handleMouseButton ex_buttonA (leftPress 60 60))) = [OnClick]
   \<and> \<not> consumedByFirstChild ex_overlap (leftPress 60 60)"
  by (simp add: ex_overlap_def ex_buttonA_def ex_buttonB_def withBase_def Container_init_def
        Button_init_def Widget_init_def leftPress_def contains_def mkRect_def mkPoint_def
        Widget_handleMouseButton_def Button_handleMouseButton_def consumedByFirstChild_def)

theorem Container_hit_testing_witness:
  "\<not> enabled (base ex_overlap_disabled)
   \<and> me_pressed (leftPress 60 60) \<and> me_button (leftPress 60 60) = MouseButton_Left
   \<and> enabled (base ex_buttonA)
   \<and> contains (bounds (base ex_buttonA)) (me_position (leftPress 60 60))
   \<and> contains (bounds (base ex_buttonB)) (me_position (leftPress 60 60))
   \<and> consumedByFirstChild ex_overlap_disabled (leftPress 60 60)
   \<and> snd (snd (handleMouseButton ex_overlap_disabled (leftPress 60 60))) = [OnClick]"
proof -
  have shape: "ex_overlap_disabled =
      Node (base ex_overlap_disabled) KContainer (ex_buttonA # ex_buttonB # [])"
    by (simp add: ex_overlap_disabled_def ex_overlap_def withBase_def Container_init_def)
  have h: "(\<not> enabled (base ex_overlap_disabled)
      \<or> \<not> contains (bounds (base ex_overlap_disabled)) (me_position (leftPress 60 60)))
   \<and> me_pressed (leftPress 60 60) \<and> me_button (leftPress 60 60) = MouseButton_Left
   \<and> enabled (base ex_buttonA)
   \<and> contains (bounds (base ex_buttonA)) (me_position (leftPress 60 60))
   \<and> contains (bounds (base ex_buttonB)) (me_position (leftPress 60 60))"
    by (simp add: ex_overlap_disabled_def ex_overlap_def ex_buttonA_def ex_buttonB_def
          withBase_def Container_init_def Button_init_def Widget_init_def leftPress_def
          contains_def mkRect_def mkPoint_def)
  have c: "consumedByFirstChild ex_overlap_disabled (leftPress 60 60)"
    using Container_hit_testing
      [of "base ex_overlap_disabled" KContainer "[]" "leftPress 60 60" ex_buttonA ex_buttonB "[]",
       THEN conjunct2, rule_format, OF h]
    shape by simp
  have cb: "snd (snd (handleMouseButton ex_buttonA (leftPress 60 60))) = [OnClick]"
    by (simp add: ex_buttonA_def withBase_def Button_init_def Widget_init_def leftPress_def
          contains_def mkRect_def mkPoint_def Widget_handleMouseButton_def
          Button_handleMouseButton_def)
  have "handleMouseButton ex_overlap_disabled (leftPress 60 60) =
      (True, Node (base ex_overlap_disabled) KContainer
               (fst (snd (handleMouseButton ex_buttonA (leftPress 60 60))) # [ex_buttonB]),
       snd (snd (handleMouseButton ex_buttonA (leftPress 60 60))))"
    using c by (subst (asm) shape, subst shape) (simp add: consumedByFirstChild_def)
  then have "snd (snd (handleMouseButton ex_overlap_disabled (leftPress 60 60))) = [OnClick]"
    using cb by simp
  moreover have "\<not> enabled (base ex_overlap_disabled)"
    by (simp add: ex_overlap_disabled_def ex_overlap_def withBase_def Container_init_def)
  ultimately show ?thesis using h c by (intro conjI) simp_all
qed

subsection \<open>Invisible widgets\<close>

lemma Widget_measure_invisible:
  "\<not> visible (base w) \<Longrightarrow> Widget_measure w available = (mkSize 0 0, w)"
  by (simp add: Widget_measure.simps)

lemma Widget_render_invisible: "\<not> visible w \<Longrightarrow> Widget_render w = []"
  by (simp add: Widget_render_def)

text \<open>
  Claim C3 (an invisible widget measures to zero and draws nothing) holds for \<^verbatim>\<open>measure\<close>
  and for the base \<^verbatim>\<open>Widget::render\<close>, and fails for \<^verbatim>\<open>Text::render\<close> called on the widget
  directly: the hidden Text below measures to (0,0) and is left as it is, its base rendering
  draws nothing, and still \<^verbatim>\<open>Text::render\<close> issues the \<^verbatim>\<open>drawText\<close> call.
\<close>

theorem Text_render_invisible_draws:
  "\<not> visible ex_hiddenText_w
   \<and> Widget_measure (Leaf ex_hiddenText_w (KText ex_hiddenText_t)) (mkSize 500 400)
       = (mkSize 0 0, Leaf ex_hiddenText_w (KText ex_hiddenText_t))
   \<and> Widget_render ex_hiddenText_w = []
   \<and> Text_render ex_renderer ex_hiddenText_w ex_hiddenText_t
       = [DrawText ''Hi'' (mkPoint 0 2) (mkColor 1 1 1 1) TextStyle_init]"
  by (simp add: ex_hiddenText_w_def ex_hiddenText_t_def ex_renderer_def Widget_measure.simps
        Widget_render_def Text_render_def Text_textPos_def TextStyle_init_def topLeft_def
        mkRect_def mkPoint_def mkSize_def Let_def)

subsection \<open>Layouts with too few children\<close>

text \<open>
  With the reads by index made explicit, \<^verbatim>\<open>layout\<close> never fails either, and it returns what
  the function \<open>layout\<close> returns.
\<close>

lemma layout_chk_eq:
  "layout_chk wg rect = Inr (layout wg rect)"
  "layoutChildren_chk w k cs = Inr (layoutChildren w k cs)"
  "length cs1 \<le> length sizes1 \<Longrightarrow>
     layoutHorizontal_chk w1 b1 cs1 sizes1 x1 = Inr (layoutHorizontal w1 b1 cs1 sizes1 x1)"
  "length cs2 \<le> length sizes2 \<Longrightarrow>
     layoutVertical_chk w2 b2 cs2 sizes2 y2 = Inr (layoutVertical w2 b2 cs2 sizes2 y2)"
  "Stack_layoutChildren_chk w3 s3 cs3 = Inr (Stack_layoutChildren w3 s3 cs3)"
  "Grid_layoutChildren_chk w4 g4 cs4 row col = Inr (Grid_layoutChildren w4 g4 cs4 row col)"
proof (induction wg rect and w k cs and w1 b1 cs1 sizes1 x1 and w2 b2 cs2 sizes2 y2
    and w3 s3 cs3 and w4 g4 cs4 row col
    rule: layout_chk_layoutChildren_chk_layoutHorizontal_chk_layoutVertical_chk_Stack_layoutChildren_chk_Grid_layoutChildren_chk.induct)
  case (1 w k rect)
  show ?case by simp
next
  case (2 w k cs rect)
  then show ?case by simp
next
  case (3 w k cs)
  note defs = layoutChildren_chk.simps layoutChildren.simps
  show ?case
  proof (cases k)
    case KContainer
    then show ?thesis by (simp add: defs)
  next
    case (KBox b)
    show ?thesis
    proof (cases "cs = []")
      case True
      then show ?thesis using KBox by (simp add: defs)
    next
      case False
      let ?a = "mkSize (r_width (contentBounds w)) (r_height (contentBounds w))"
      obtain szs cs1 where m: "Box_measureChildren cs ?a = (szs, cs1)"
        by (cases "Box_measureChildren cs ?a")
      have c: "Box_measureChildren_chk cs ?a = Inr (szs, cs1)"
        by (simp add: Box_measureChildren_chk_eq m)
      have len: "length cs1 \<le> length szs"
        using Box_measureChildren_length[of cs ?a] m by simp
      show ?thesis
        using KBox False m c len "3.IH"(1)[OF KBox False c refl] "3.IH"(2)[OF KBox False c refl]
        by (simp add: defs)
    qed
  next
    case (KStack s)
    then show ?thesis using "3.IH"(3) by (simp add: defs)
  next
    case (KGrid g)
    then show ?thesis using "3.IH"(4)[OF KGrid] by (auto simp add: defs)
  next
    case (KScrollView s)
    show ?thesis
    proof (cases cs)
      case Nil
      then show ?thesis using KScrollView by (simp add: defs)
    next
      case (Cons c rest)
      obtain sz c1 where m: "Widget_measure c (ScrollView_available w s) = (sz, c1)"
        by (cases "Widget_measure c (ScrollView_available w s)")
      have ne: "cs \<noteq> []" using Cons by simp
      have v0: "vec_at cs 0 = Inr c" using Cons by (simp add: vec_at_def)
      have c: "Widget_measure_chk c (ScrollView_available w s) = Inr (sz, c1)"
        by (simp add: Widget_measure_chk_eq m)
      have v1: "vec_at (cs[0 := c1]) 0 = Inr c1" using ne by simp
      have ih: "layout_chk c1 (ScrollView_rect w s sz) = Inr (layout c1 (ScrollView_rect w s sz))"
        by (rule "3.IH"(5)[OF KScrollView ne v0 c refl v1])
      show ?thesis using KScrollView Cons m v0 c v1 ih by (simp add: defs)
    qed
  next
    case (KSidebar s)
    show ?thesis
    proof (cases "length cs < 2")
      case True
      then show ?thesis using KSidebar by (simp add: defs)
    next
      case False
      then obtain a b rest where cs: "cs = a # b # rest"
        by (cases cs; cases "tl cs") auto
      have v0: "vec_at cs 0 = Inr a" and v1: "vec_at cs 1 = Inr b"
        using cs by (simp_all add: vec_at_def)
      show ?thesis
      proof (cases "sb_position s = Position_Left \<or> sb_position s = Position_Top")
        case True
        have i1: "layout_chk a (Sidebar_sidebarRect w s) = Inr (layout a (Sidebar_sidebarRect w s))"
          by (rule "3.IH"(6)[OF KSidebar False v0 v1 True])
        have i2: "layout_chk b (Sidebar_contentRect w s) = Inr (layout b (Sidebar_contentRect w s))"
          by (rule "3.IH"(7)[OF KSidebar False v0 v1 True i1])
        show ?thesis using KSidebar cs v0 v1 True i1 i2 by (simp add: defs)
      next
        case F: False
        have i1: "layout_chk b (Sidebar_contentRect w s) = Inr (layout b (Sidebar_contentRect w s))"
          by (rule "3.IH"(8)[OF KSidebar False v0 v1 F])
        have i2: "layout_chk a (Sidebar_sidebarRect w s) = Inr (layout a (Sidebar_sidebarRect w s))"
          by (rule "3.IH"(9)[OF KSidebar False v0 v1 F i1])
        show ?thesis using KSidebar cs v0 v1 F i1 i2 by (simp add: defs)
      qed
    qed
  qed
next
  case (4 w b sizes x)
  show ?case by simp
next
  case (5 w b c cs x)
  then show ?case by simp
next
  case (6 w b c cs sz sizes x)
  have i1: "layout_chk c (layoutHorizontal_rect w b sz x) = Inr (layout c (layoutHorizontal_rect w b sz x))"
    by (rule "6.IH"(1))
  show ?case using i1 "6.IH"(2)[OF i1] "6.prems" by simp
next
  case (7 w b sizes y)
  show ?case by simp
next
  case (8 w b c cs y)
  then show ?case by simp
next
  case (9 w b c cs sz sizes y)
  have i1: "layout_chk c (layoutVertical_rect w b sz y) = Inr (layout c (layoutVertical_rect w b sz y))"
    by (rule "9.IH"(1))
  show ?case using i1 "9.IH"(2)[OF i1] "9.prems" by simp
next
  case (10 w s)
  show ?case by simp
next
  case (11 w s c cs)
  let ?a = "mkSize (r_width (contentBounds w)) (r_height (contentBounds w))"
  obtain sz c1 where m: "Widget_measure c ?a = (sz, c1)"
    by (cases "Widget_measure c ?a")
  have c: "Widget_measure_chk c ?a = Inr (sz, c1)"
    by (simp add: Widget_measure_chk_eq m)
  have i1: "layout_chk c1 (Stack_rect w s sz) = Inr (layout c1 (Stack_rect w s sz))"
    by (rule "11.IH"(1)[OF c refl])
  show ?case using m c i1 "11.IH"(2)[OF c refl i1] by simp
next
  case (12 w g row col)
  show ?case by simp
next
  case (13 w g c cs row col)
  have i1: "layout_chk c (Grid_rect w g row col) = Inr (layout c (Grid_rect w g row col))"
    by (rule "13.IH"(1))
  show ?case
    using i1 "13.IH"(2)[OF i1] "13.IH"(3)[OF i1] by (cases "grid_columns g \<le> col + 1") simp_all
qed

text \<open>
  Claim C8 (under-populated layouts are safe no-ops). For a Sidebar with fewer than two
  children, \<^verbatim>\<open>layoutChildren\<close> returns at its guard, before it reads \<^verbatim>\<open>children_[0]\<close> and
  \<^verbatim>\<open>children_[1]\<close>: the call succeeds, the children are left as they are, and a whole
  \<^verbatim>\<open>layout\<close> call changes the bounds and content bounds of the Sidebar only; the read of
  \<^verbatim>\<open>children_[1]\<close> that the guard skips would be out of range. The same holds for a
  ScrollView without children, for \<^verbatim>\<open>layoutChildren\<close>, for \<^verbatim>\<open>layout\<close> and for
  \<^verbatim>\<open>measureContent\<close>, which is (0,0) and changes nothing; there the read of
  \<^verbatim>\<open>children_[0]\<close> would be out of range. And no call of \<^verbatim>\<open>layout\<close> or \<^verbatim>\<open>measure\<close> on any
  widget tree ends in a read out of range, whatever containers the tree has inside.
\<close>

theorem underpopulated_layouts_noop:
  "(length cs < 2 \<longrightarrow>
      layoutChildren_chk w (KSidebar sb) cs = Inr cs
      \<and> layout_chk (Node w (KSidebar sb) cs) rect
          = Inr (Node (Widget_setBounds w rect) (KSidebar sb) cs)
      \<and> vec_at cs 1 = Inl OutOfRange)
   \<and> layoutChildren_chk w (KScrollView sv) [] = Inr []
   \<and> layout_chk (Node w (KScrollView sv) []) rect
        = Inr (Node (Widget_setBounds w rect) (KScrollView sv) [])
   \<and> measureContent_chk (Node w (KScrollView sv) []) available
        = Inr (mkSize 0 0, Node w (KScrollView sv) [])
   \<and> vec_at ([] :: widget list) 0 = Inl OutOfRange
   \<and> (\<exists>r. layout_chk tree rect = Inr r)
   \<and> (\<exists>r. Widget_measure_chk tree available = Inr r)"
proof -
  have l: "\<exists>r. layout_chk tree rect = Inr r"
    by (simp add: layout_chk_eq(1))
  have m: "\<exists>r. Widget_measure_chk tree available = Inr r"
    by (simp add: Widget_measure_chk_eq)
  show ?thesis
    using l m by (simp add: layoutChildren_chk.simps vec_at_def)
qed

theorem underpopulated_layouts_noop_witness:
  "length [Text_init ''menu''] < 2
   \<and> layoutChildren_chk (base ex_sidebar_one)
        (KSidebar \<lparr>sb_position = Position_Left, sb_sidebarSize = 200\<rparr>) [Text_init ''menu'']
       = Inr [Text_init ''menu'']
   \<and> layout_chk ex_sidebar_one (mkRect 0 0 400 300) = Inr ex_sidebar_one
   \<and> vec_at [Text_init ''menu''] 1 = Inl OutOfRange"
proof -
  have shape: "ex_sidebar_one = Node (base ex_sidebar_one)
      (KSidebar \<lparr>sb_position = Position_Left, sb_sidebarSize = 200\<rparr>) [Text_init ''menu'']"
    by (simp add: ex_sidebar_one_def withBase_def Sidebar_init_def)
  have b: "Widget_setBounds (base ex_sidebar_one) (mkRect 0 0 400 300) = base ex_sidebar_one"
    by (simp add: ex_sidebar_one_def withBase_def Sidebar_init_def Widget_setBounds_def
          Widget_init_def BoxStyle_init_def mkPadding_def horizontal_def vertical_def mkRect_def)
  have len: "length [Text_init ''menu''] < 2" by simp
  note th = underpopulated_layouts_noop
    [of "[Text_init ''menu'']" "base ex_sidebar_one"
        "\<lparr>sb_position = Position_Left, sb_sidebarSize = 200\<rparr>" "mkRect 0 0 400 300",
     THEN conjunct1, rule_format, OF len]
  have l: "layout_chk (Node (base ex_sidebar_one)
      (KSidebar \<lparr>sb_position = Position_Left, sb_sidebarSize = 200\<rparr>) [Text_init ''menu''])
      (mkRect 0 0 400 300) = Inr (Node (base ex_sidebar_one)
      (KSidebar \<lparr>sb_position = Position_Left, sb_sidebarSize = 200\<rparr>) [Text_init ''menu''])"
    using th[THEN conjunct2, THEN conjunct1] b by simp
  have "layout_chk ex_sidebar_one (mkRect 0 0 400 300) = Inr ex_sidebar_one"
    using l[folded shape] .
  then show ?thesis using len th[THEN conjunct1] th[THEN conjunct2, THEN conjunct2]
    by (intro conjI)
qed

subsection \<open>ScrollView: scrolling\<close>

lemma std_max_0: "std_max 0 x = max 0 x"
  by (simp add: std_max_def max_def)

lemma measure_kind:
  "\<exists>w' cs'. snd (Widget_measure (Node w k cs) a) = Node w' k cs'"
proof -
  have "clearMeasured (snd (Widget_measure (Node w k cs) a)) = clearMeasured (Node w k cs)"
    by (rule measure_clearMeasured(1))
  then show ?thesis
    by (cases "snd (Widget_measure (Node w k cs) a)") simp_all
qed

lemma handleMouseButton_kind:
  "\<exists>cs'. fst (snd (handleMouseButton (Node w k cs) event)) = Node w k cs'"
  by (simp add: split_beta)

text \<open>
  Claim C7 (ScrollView scrolling). For every ScrollView, \<^verbatim>\<open>handleScroll\<close> returns false and
  changes nothing when the position of the event lies outside the content bounds. When it
  lies inside, the handler returns true, replaces the offset on the scroll axis by the
  maximum of 0 and the old offset minus 20 times the signed delta of that axis, leaves the
  other axis and the direction as they are, and lays the children out again with the new
  offset. Offsets that are non-negative stay non-negative under \<^verbatim>\<open>handleScroll\<close>, and
  \<^verbatim>\<open>measure\<close>, \<^verbatim>\<open>layout\<close> and \<^verbatim>\<open>handleMouseButton\<close> do not touch the offset. There is no
  clamp from above: whenever the old offset minus 20 times the delta is non-negative it is
  the new offset, whatever the extent of the content.
\<close>

theorem ScrollView_handleScroll:
  "handleScroll (Node w (KScrollView s) cs) event =
     (if \<not> contains (contentBounds w) (se_position event)
      then (False, Node w (KScrollView s) cs)
      else (True, Node w (KScrollView (ScrollView_scroll s event))
                    (layoutChildren w (KScrollView (ScrollView_scroll s event)) cs)))
   \<and> sv_scrollDir (ScrollView_scroll s event) = sv_scrollDir s
   \<and> sv_scrollOffset (ScrollView_scroll s event) =
       (if sv_scrollDir s = Horizontal
        then (sv_scrollOffset s)\<lparr>p_x := max 0 (p_x (sv_scrollOffset s) - se_deltaX event * 20)\<rparr>
        else (sv_scrollOffset s)\<lparr>p_y := max 0 (p_y (sv_scrollOffset s) - se_deltaY event * 20)\<rparr>)
   \<and> (0 \<le> p_x (sv_scrollOffset s) \<and> 0 \<le> p_y (sv_scrollOffset s) \<longrightarrow>
        (\<forall>sv' p. scrollOffsetOf sv' = Some p
            \<and> (sv' = snd (handleScroll (Node w (KScrollView s) cs) event)
               \<or> sv' = snd (Widget_measure (Node w (KScrollView s) cs) available)
               \<or> sv' = layout (Node w (KScrollView s) cs) rect
               \<or> sv' = fst (snd (handleMouseButton (Node w (KScrollView s) cs) mevent)))
          \<longrightarrow> 0 \<le> p_x p \<and> 0 \<le> p_y p))
   \<and> (contains (contentBounds w) (se_position event) \<and> sv_scrollDir s = Vertical
        \<and> 0 \<le> p_y (sv_scrollOffset s) - se_deltaY event * 20 \<longrightarrow>
        scrollOffsetOf (snd (handleScroll (Node w (KScrollView s) cs) event))
          = Some ((sv_scrollOffset s)\<lparr>p_y := p_y (sv_scrollOffset s) - se_deltaY event * 20\<rparr>))
   \<and> (contains (contentBounds w) (se_position event) \<and> sv_scrollDir s = Horizontal
        \<and> 0 \<le> p_x (sv_scrollOffset s) - se_deltaX event * 20 \<longrightarrow>
        scrollOffsetOf (snd (handleScroll (Node w (KScrollView s) cs) event))
          = Some ((sv_scrollOffset s)\<lparr>p_x := p_x (sv_scrollOffset s) - se_deltaX event * 20\<rparr>))"
proof (intro conjI)
  show "handleScroll (Node w (KScrollView s) cs) event =
     (if \<not> contains (contentBounds w) (se_position event)
      then (False, Node w (KScrollView s) cs)
      else (True, Node w (KScrollView (ScrollView_scroll s event))
                    (layoutChildren w (KScrollView (ScrollView_scroll s event)) cs)))"
    by simp
  show "sv_scrollDir (ScrollView_scroll s event) = sv_scrollDir s"
    by (simp add: ScrollView_scroll_def)
  show off: "sv_scrollOffset (ScrollView_scroll s event) =
       (if sv_scrollDir s = Horizontal
        then (sv_scrollOffset s)\<lparr>p_x := max 0 (p_x (sv_scrollOffset s) - se_deltaX event * 20)\<rparr>
        else (sv_scrollOffset s)\<lparr>p_y := max 0 (p_y (sv_scrollOffset s) - se_deltaY event * 20)\<rparr>)"
    by (simp add: ScrollView_scroll_def std_max_0)
  show "0 \<le> p_x (sv_scrollOffset s) \<and> 0 \<le> p_y (sv_scrollOffset s) \<longrightarrow>
        (\<forall>sv' p. scrollOffsetOf sv' = Some p
            \<and> (sv' = snd (handleScroll (Node w (KScrollView s) cs) event)
               \<or> sv' = snd (Widget_measure (Node w (KScrollView s) cs) available)
               \<or> sv' = layout (Node w (KScrollView s) cs) rect
               \<or> sv' = fst (snd (handleMouseButton (Node w (KScrollView s) cs) mevent)))
          \<longrightarrow> 0 \<le> p_x p \<and> 0 \<le> p_y p)"
  proof (intro impI allI)
    fix sv' p
    assume inv: "0 \<le> p_x (sv_scrollOffset s) \<and> 0 \<le> p_y (sv_scrollOffset s)"
    assume h: "scrollOffsetOf sv' = Some p
            \<and> (sv' = snd (handleScroll (Node w (KScrollView s) cs) event)
               \<or> sv' = snd (Widget_measure (Node w (KScrollView s) cs) available)
               \<or> sv' = layout (Node w (KScrollView s) cs) rect
               \<or> sv' = fst (snd (handleMouseButton (Node w (KScrollView s) cs) mevent)))"
    have scrolled: "0 \<le> p_x (sv_scrollOffset (ScrollView_scroll s event))
        \<and> 0 \<le> p_y (sv_scrollOffset (ScrollView_scroll s event))"
      using inv by (simp add: off)
    from h consider
        (scroll) "sv' = snd (handleScroll (Node w (KScrollView s) cs) event)"
      | (measure) "sv' = snd (Widget_measure (Node w (KScrollView s) cs) available)"
      | (layout) "sv' = layout (Node w (KScrollView s) cs) rect"
      | (mouse) "sv' = fst (snd (handleMouseButton (Node w (KScrollView s) cs) mevent))"
      by blast
    then have "p = sv_scrollOffset s \<or> p = sv_scrollOffset (ScrollView_scroll s event)"
    proof cases
      case scroll
      then show ?thesis using h by (auto simp add: scrollOffsetOf_def split: if_splits)
    next
      case measure
      obtain w' cs' where "snd (Widget_measure (Node w (KScrollView s) cs) available)
          = Node w' (KScrollView s) cs'"
        using measure_kind by blast
      then show ?thesis using h measure by (simp add: scrollOffsetOf_def)
    next
      case layout
      then show ?thesis using h by (simp add: scrollOffsetOf_def)
    next
      case mouse
      obtain cs' where "fst (snd (handleMouseButton (Node w (KScrollView s) cs) mevent))
          = Node w (KScrollView s) cs'"
        using handleMouseButton_kind by blast
      then show ?thesis using h mouse by (simp add: scrollOffsetOf_def)
    qed
    then show "0 \<le> p_x p \<and> 0 \<le> p_y p" using inv scrolled by auto
  qed
  show "contains (contentBounds w) (se_position event) \<and> sv_scrollDir s = Vertical
        \<and> 0 \<le> p_y (sv_scrollOffset s) - se_deltaY event * 20 \<longrightarrow>
        scrollOffsetOf (snd (handleScroll (Node w (KScrollView s) cs) event))
          = Some ((sv_scrollOffset s)\<lparr>p_y := p_y (sv_scrollOffset s) - se_deltaY event * 20\<rparr>)"
    by (simp add: scrollOffsetOf_def off)
  show "contains (contentBounds w) (se_position event) \<and> sv_scrollDir s = Horizontal
        \<and> 0 \<le> p_x (sv_scrollOffset s) - se_deltaX event * 20 \<longrightarrow>
        scrollOffsetOf (snd (handleScroll (Node w (KScrollView s) cs) event))
          = Some ((sv_scrollOffset s)\<lparr>p_x := p_x (sv_scrollOffset s) - se_deltaX event * 20\<rparr>)"
    by (simp add: scrollOffsetOf_def off)
qed

theorem ScrollView_handleScroll_witness:
  "contains (contentBounds (base ex_scrollView)) (se_position (scrollEvent 10 10 0 (-3)))
   \<and> sv_scrollDir \<lparr>sv_scrollDir = Vertical, sv_scrollOffset = mkPoint 0 0\<rparr> = Vertical
   \<and> 0 \<le> p_y (sv_scrollOffset \<lparr>sv_scrollDir = Vertical, sv_scrollOffset = mkPoint 0 0\<rparr>)
           - se_deltaY (scrollEvent 10 10 0 (-3)) * 20
   \<and> 0 \<le> p_x (sv_scrollOffset \<lparr>sv_scrollDir = Vertical, sv_scrollOffset = mkPoint 0 0\<rparr>)
   \<and> 0 \<le> p_y (sv_scrollOffset \<lparr>sv_scrollDir = Vertical, sv_scrollOffset = mkPoint 0 0\<rparr>)
   \<and> fst (handleScroll ex_scrollView (scrollEvent 10 10 0 (-3)))
   \<and> scrollOffsetOf (snd (handleScroll ex_scrollView (scrollEvent 10 10 0 (-3))))
       = Some (mkPoint 0 60)
   \<and> handleScroll ex_scrollView (scrollEvent 300 10 0 (-3)) = (False, ex_scrollView)"
proof -
  let ?S = "\<lparr>sv_scrollDir = Vertical, sv_scrollOffset = mkPoint 0 0\<rparr>"
  let ?E = "scrollEvent 10 10 0 (-3)"
  have shape: "ex_scrollView = Node (base ex_scrollView) (KScrollView ?S) [Spacer_init 50]"
    by (simp add: ex_scrollView_def withBase_def ScrollView_init_def)
  have cb: "contentBounds (base ex_scrollView) = mkRect 0 0 200 100"
    by (simp add: ex_scrollView_def withBase_def ScrollView_init_def)
  have inside: "contains (contentBounds (base ex_scrollView)) (se_position ?E)"
    by (simp add: cb contains_def mkRect_def scrollEvent_def mkPoint_def)
  have outside: "\<not> contains (contentBounds (base ex_scrollView)) (se_position (scrollEvent 300 10 0 (-3)))"
    by (simp add: cb contains_def mkRect_def scrollEvent_def mkPoint_def)
  have dir: "sv_scrollDir ?S = Vertical" by simp
  have room: "0 \<le> p_y (sv_scrollOffset ?S) - se_deltaY ?E * 20"
    by (simp add: scrollEvent_def mkPoint_def)
  have inv: "0 \<le> p_x (sv_scrollOffset ?S)" "0 \<le> p_y (sv_scrollOffset ?S)"
    by (simp_all add: mkPoint_def)
  note th = ScrollView_handleScroll[of "base ex_scrollView" ?S "[Spacer_init 50]"]
  have r: "fst (handleScroll ex_scrollView ?E)"
    using th[of ?E, THEN conjunct1] inside by (subst shape) simp
  have "scrollOffsetOf (snd (handleScroll (Node (base ex_scrollView) (KScrollView ?S)
            [Spacer_init 50]) ?E))
        = Some ((sv_scrollOffset ?S)\<lparr>p_y := p_y (sv_scrollOffset ?S) - se_deltaY ?E * 20\<rparr>)"
    using th[of ?E, THEN conjunct2, THEN conjunct2, THEN conjunct2, THEN conjunct2,
             THEN conjunct1] inside dir room by blast
  then have off: "scrollOffsetOf (snd (handleScroll ex_scrollView ?E)) = Some (mkPoint 0 60)"
    by (subst shape) (simp add: scrollEvent_def mkPoint_def)
  have out: "handleScroll ex_scrollView (scrollEvent 300 10 0 (-3)) = (False, ex_scrollView)"
    using th[of "scrollEvent 300 10 0 (-3)", THEN conjunct1] outside
    by (subst shape, subst (2) shape) simp
  show ?thesis using inside dir room inv r off out by (intro conjI)
qed

subsection \<open>Box: the content size of a row\<close>

lemma Box_measureH_closed_form:
  "fst (Box_measureH cs ca r) =
     mkSize (s_width r + sum_list (map (\<lambda>c. s_width (fst (Widget_measure c ca))) cs))
            (foldl std_max (s_height r) (map (\<lambda>c. s_height (fst (Widget_measure c ca))) cs))"
proof (induction cs arbitrary: r)
  case Nil
  then show ?case by (simp add: mkSize_def)
next
  case (Cons c cs)
  show ?case by (simp add: split_beta Cons.IH mkSize_def)
qed

lemma std_max_eq_max: "std_max = (max :: real \<Rightarrow> real \<Rightarrow> real)"
  by (intro ext) (simp add: std_max_def max_def)

lemma foldl_std_max: "foldl std_max a xs = Max (insert a (set xs))"
proof -
  have "foldl std_max a xs = fold max xs a"
    by (simp add: std_max_eq_max foldl_conv_fold max.commute)
  also have "\<dots> = Max (set (a # xs))" by (rule Max.set_eq_fold[symmetric])
  finally show ?thesis by simp
qed

lemma measure_fixed_leaf:
  "Widget_measure (Leaf (Widget_init\<lparr>widthSpec := SizeSpec_fixed a, heightSpec := SizeSpec_fixed b\<rparr>) k)
     available = (mkSize a b,
       Leaf (Widget_init\<lparr>widthSpec := SizeSpec_fixed a, heightSpec := SizeSpec_fixed b,
              measuredSize := mkSize a b\<rparr>) k)"
  by (simp add: Widget_measure.simps resolveWidth.simps resolveHeight.simps Widget_init_def
        SizeSpec_fixed_def)

text \<open>
  Claim C4, as the code has it (content size of a horizontal Box). For a horizontal Box with
  spacing \<open>s\<close> and \<open>n \<ge> 1\<close> children, each measured against the available size with its width
  reduced by \<open>s * (n - 1)\<close>, \<^verbatim>\<open>measureContent\<close> returns as width the sum of the children's
  measured widths plus \<open>s * (n - 1)\<close>, and as height the maximum of 0 and the children's
  measured heights, which is the maximum child height whenever some child has a
  non-negative height. For \<open>n = 0\<close> the result is (0,0).
\<close>

theorem Box_measureContent_horizontal:
  "box_direction b = Horizontal \<Longrightarrow>
   fst (measureContent (Node w (KBox b) cs) available) =
     (if cs = [] then mkSize 0 0
      else mkSize
        (sum_list (map (\<lambda>c. s_width (fst (Widget_measure c
             (available\<lparr>s_width := s_width available - box_spacing b * real (length cs - 1)\<rparr>)))) cs)
           + box_spacing b * real (length cs - 1))
        (Max (insert 0 (set (map (\<lambda>c. s_height (fst (Widget_measure c
             (available\<lparr>s_width := s_width available - box_spacing b * real (length cs - 1)\<rparr>)))) cs)))))
   \<and> ((\<exists>c\<in>set cs. 0 \<le> s_height (fst (Widget_measure c
             (available\<lparr>s_width := s_width available - box_spacing b * real (length cs - 1)\<rparr>)))) \<longrightarrow>
        s_height (fst (measureContent (Node w (KBox b) cs) available)) =
          Max (set (map (\<lambda>c. s_height (fst (Widget_measure c
             (available\<lparr>s_width := s_width available - box_spacing b * real (length cs - 1)\<rparr>)))) cs)))"
proof -
  assume dir: "box_direction b = Horizontal"
  let ?ca = "available\<lparr>s_width := s_width available - box_spacing b * real (length cs - 1)\<rparr>"
  let ?hs = "map (\<lambda>c. s_height (fst (Widget_measure c ?ca))) cs"
  let ?ws = "map (\<lambda>c. s_width (fst (Widget_measure c ?ca))) cs"
  have eq: "fst (measureContent (Node w (KBox b) cs) available) =
     (if cs = [] then mkSize 0 0
      else mkSize (sum_list ?ws + box_spacing b * real (length cs - 1))
                  (Max (insert 0 (set ?hs))))"
    using dir
    by (simp add: split_beta Box_measureH_closed_form Box_totalSpacing_def foldl_std_max
          mkSize_def)
  have "s_height (fst (measureContent (Node w (KBox b) cs) available)) = Max (set ?hs)"
    if ex: "\<exists>c\<in>set cs. 0 \<le> s_height (fst (Widget_measure c ?ca))"
  proof -
    from ex have ne: "cs \<noteq> []" by auto
    then have ne': "set ?hs \<noteq> {}" by simp
    from ex obtain h where h: "h \<in> set ?hs" "0 \<le> h" by auto
    have "h \<le> Max (set ?hs)" by (rule Max_ge[OF finite_set h(1)])
    then have "0 \<le> Max (set ?hs)" using h(2) by (rule order_trans[rotated])
    then have "Max (insert 0 (set ?hs)) = Max (set ?hs)"
      using ne' by (simp add: max_def)
    then show ?thesis using eq ne by (simp add: mkSize_def)
  qed
  then show ?thesis using eq by blast
qed

text \<open>
  Claim C4 as it was stated gives the height as the maximum child height. The accumulator
  of the loop starts at 0, so a row whose children all have negative heights gets height 0:
  the only child below has the fixed size 10 by -5, and the row measures 10 by 0.
\<close>

theorem Box_measureContent_negative_heights:
  "box_direction \<lparr>box_direction = Horizontal, box_spacing = 0, box_alignment = Start,
       box_crossAlignment = Start\<rparr> = Horizontal
   \<and> ex_box = Node Widget_init (KBox \<lparr>box_direction = Horizontal, box_spacing = 0,
       box_alignment = Start, box_crossAlignment = Start\<rparr>) [ex_negChild]
   \<and> fst (Widget_measure ex_negChild (mkSize 100 100)) = mkSize 10 (- 5)
   \<and> fst (measureContent ex_box (mkSize 100 100)) = mkSize 10 0
   \<and> s_height (fst (measureContent ex_box (mkSize 100 100)))
       \<noteq> Max (set (map (\<lambda>c. s_height (fst (Widget_measure c (mkSize 100 100)))) [ex_negChild]))"
proof -
  have m: "\<And>a. Widget_measure ex_negChild a = (mkSize 10 (- 5),
      Leaf (Widget_init\<lparr>widthSpec := SizeSpec_fixed 10, heightSpec := SizeSpec_fixed (- 5),
              measuredSize := mkSize 10 (- 5)\<rparr>) KWidget)"
    unfolding ex_negChild_def by (rule measure_fixed_leaf)
  show ?thesis
    by (simp add: ex_box_def Box_init_def m Box_totalSpacing_def std_max_def mkSize_def)
qed

theorem Box_measureContent_horizontal_witness:
  "box_direction \<lparr>box_direction = Horizontal, box_spacing = 4, box_alignment = Start,
       box_crossAlignment = Start\<rparr> = Horizontal
   \<and> (\<exists>c\<in>set [Spacer_init 10, Spacer_init 30]. 0 \<le> s_height (fst (Widget_measure c (mkSize 196 100))))
   \<and> fst (measureContent ex_row (mkSize 200 100)) = mkSize 44 30
   \<and> Max (set (map (\<lambda>c. s_height (fst (Widget_measure c (mkSize 196 100))))
        [Spacer_init 10, Spacer_init 30])) = 30"
proof -
  let ?b = "\<lparr>box_direction = Horizontal, box_spacing = 4, box_alignment = Start,
       box_crossAlignment = Start\<rparr>"
  have dir: "box_direction ?b = Horizontal" by simp
  have m: "\<And>z a. fst (Widget_measure (Spacer_init z) a) = mkSize z z"
    unfolding Spacer_init_def by (simp add: measure_fixed_leaf)
  have ca: "(mkSize 200 100)\<lparr>s_width := s_width (mkSize 200 100)
        - box_spacing ?b * real (length [Spacer_init 10, Spacer_init 30] - 1)\<rparr> = mkSize 196 100"
    by (simp add: mkSize_def)
  note th = Box_measureContent_horizontal
    [of ?b Widget_init "[Spacer_init 10, Spacer_init 30]" "mkSize 200 100", OF dir, unfolded ca]
  have ex: "\<exists>c\<in>set [Spacer_init 10, Spacer_init 30]. 0 \<le> s_height (fst (Widget_measure c (mkSize 196 100)))"
    by (simp add: m mkSize_def)
  have mx: "Max (set (map (\<lambda>c. s_height (fst (Widget_measure c (mkSize 196 100))))
        [Spacer_init 10, Spacer_init 30])) = 30"
    by (simp add: m mkSize_def)
  have "fst (measureContent ex_row (mkSize 200 100)) = mkSize 44 30"
    using th[THEN conjunct1] by (simp add: ex_row_def m mkSize_def)
  then show ?thesis using dir ex mx by (intro conjI)
qed

subsection \<open>Widget: measuring\<close>

text \<open>
  Measuring changes nothing but the cached sizes, and its result does not depend on them:
  two trees that differ in their cached sizes only measure alike.
\<close>

lemma base_clearMeasured: "base (clearMeasured w) = (base w)\<lparr>measuredSize := mkSize 0 0\<rparr>"
  by (cases w) simp_all

lemma same_config:
  assumes "clearMeasured w = clearMeasured w'"
  shows "visible (base w) = visible (base w')" "style (base w) = style (base w')"
    "widthSpec (base w) = widthSpec (base w')" "heightSpec (base w) = heightSpec (base w')"
proof -
  have e: "(base w)\<lparr>measuredSize := mkSize 0 0\<rparr> = (base w')\<lparr>measuredSize := mkSize 0 0\<rparr>"
    using assms base_clearMeasured by metis
  show "visible (base w) = visible (base w')" using arg_cong[OF e, of visible] by simp
  show "style (base w) = style (base w')" using arg_cong[OF e, of style] by simp
  show "widthSpec (base w) = widthSpec (base w')" using arg_cong[OF e, of widthSpec] by simp
  show "heightSpec (base w) = heightSpec (base w')" using arg_cong[OF e, of heightSpec] by simp
qed

lemma leaf_measureContent_cache [simp]:
  "leaf_measureContent (w\<lparr>measuredSize := z\<rparr>) k a = leaf_measureContent w k a"
  by (cases k) (simp_all add: leaf_measureContent_def)

lemma clearMeasured_Leaf_eq:
  "clearMeasured (Leaf w k) = clearMeasured w' \<Longrightarrow>
     \<exists>v. w' = Leaf v k \<and> w\<lparr>measuredSize := mkSize 0 0\<rparr> = v\<lparr>measuredSize := mkSize 0 0\<rparr>"
  by (cases w') simp_all

lemma clearMeasured_Node_eq:
  "clearMeasured (Node w k cs) = clearMeasured w' \<Longrightarrow>
     \<exists>v cs'. w' = Node v k cs' \<and> map clearMeasured cs = map clearMeasured cs'"
  by (cases w') simp_all

lemma measure_independent:
  "clearMeasured w = clearMeasured w' \<Longrightarrow> fst (Widget_measure w a) = fst (Widget_measure w' a)"
  "clearMeasured w1 = clearMeasured w1' \<Longrightarrow> fst (resolveWidth w1 a1) = fst (resolveWidth w1' a1)"
  "clearMeasured w2 = clearMeasured w2' \<Longrightarrow> fst (resolveHeight w2 a2) = fst (resolveHeight w2' a2)"
  "clearMeasured w3 = clearMeasured w3' \<Longrightarrow> fst (measureContent w3 a3) = fst (measureContent w3' a3)"
  "map clearMeasured cs = map clearMeasured cs' \<Longrightarrow>
     fst (Box_measureH cs ca r) = fst (Box_measureH cs' ca r)"
  "map clearMeasured cs1 = map clearMeasured cs1' \<Longrightarrow>
     fst (Box_measureV cs1 ca1 r1) = fst (Box_measureV cs1' ca1 r1)"
  "map clearMeasured cs2 = map clearMeasured cs2' \<Longrightarrow>
     fst (Stack_measure cs2 ca2 r2) = fst (Stack_measure cs2' ca2 r2)"
proof (induction w a and w1 a1 and w2 a2 and w3 a3 and cs ca r and cs1 ca1 r1 and cs2 ca2 r2
    arbitrary: w' and w1' and w2' and w3' and cs' and cs1' and cs2'
    rule: Widget_measure_resolveWidth_resolveHeight_measureContent_Box_measureH_Box_measureV_Stack_measure.induct)
  case (1 w available)
  note cfg = same_config[OF "1.prems"]
  show ?case
  proof (cases "visible (base w)")
    case False
    then show ?thesis using cfg by (simp add: Widget_measure.simps)
  next
    case True
    let ?av = "applyMargin (base w) available"
    have av: "applyMargin (base w') available = ?av" using cfg by (simp add: applyMargin_def)
    obtain rw v1 where rw: "resolveWidth w ?av = (rw, v1)" by (cases "resolveWidth w ?av")
    obtain rw' v1' where rw': "resolveWidth w' ?av = (rw', v1')" by (cases "resolveWidth w' ?av")
    have e1: "rw = rw'" using "1.IH"(1)[OF _ "1.prems"] True rw rw' by simp
    have "clearMeasured v1 = clearMeasured w" using measure_clearMeasured(2)[of w ?av] rw by simp
    moreover have "clearMeasured v1' = clearMeasured w'"
      using measure_clearMeasured(2)[of w' ?av] rw' by simp
    ultimately have c1: "clearMeasured v1 = clearMeasured v1'" using "1.prems" by simp
    have e2: "fst (resolveHeight v1 ?av) = fst (resolveHeight v1' ?av)"
      using "1.IH"(2)[OF _ rw[symmetric] c1] True by simp
    show ?thesis
      using True cfg e1 e2 rw rw'
      by (simp add: Widget_measure.simps av split_beta)
  qed
next
  case (2 w avail)
  note cfg = same_config[OF "2.prems"]
  show ?case
  proof (cases "spec_constraint (widthSpec (base w))")
    case Content
    then show ?thesis
      using cfg "2.IH"[OF Content "2.prems"]
      by (simp add: resolveWidth.simps split_beta)
  qed (use cfg in \<open>simp_all add: resolveWidth.simps\<close>)
next
  case (3 w avail)
  note cfg = same_config[OF "3.prems"]
  show ?case
  proof (cases "spec_constraint (heightSpec (base w))")
    case Content
    then show ?thesis
      using cfg "3.IH"[OF Content "3.prems"]
      by (simp add: resolveHeight.simps split_beta)
  qed (use cfg in \<open>simp_all add: resolveHeight.simps\<close>)
next
  case (4 w k available)
  from clearMeasured_Leaf_eq[OF "4.prems"] obtain v where
    v: "w3' = Leaf v k" "w\<lparr>measuredSize := mkSize 0 0\<rparr> = v\<lparr>measuredSize := mkSize 0 0\<rparr>"
    by blast
  have "leaf_measureContent w k available = leaf_measureContent (w\<lparr>measuredSize := mkSize 0 0\<rparr>) k available"
    by simp
  also have "\<dots> = leaf_measureContent v k available" unfolding v(2) by simp
  finally show ?case using v(1) by simp
next
  case (5 w k cs available)
  from clearMeasured_Node_eq[OF "5.prems"] obtain v cs' where
    v: "w3' = Node v k cs'" and m: "map clearMeasured cs = map clearMeasured cs'"
    by blast
  have len: "length cs = length cs'" using m by (metis length_map)
  have nil: "cs = [] \<longleftrightarrow> cs' = []" using len by auto
  show ?case
  proof (cases k)
    case KContainer
    then show ?thesis using v by simp
  next
    case (KBox b)
    have ts: "Box_totalSpacing b cs' = Box_totalSpacing b cs"
      using len by (simp add: Box_totalSpacing_def)
    show ?thesis
    proof (cases "cs = []")
      case True
      then show ?thesis using v KBox nil by simp
    next
      case False
      show ?thesis
      proof (cases "box_direction b = Horizontal")
        case True
        show ?thesis
          using "5.IH"(1)[OF KBox False True m] v KBox False nil True ts
          by (simp add: split_beta)
      next
        case False2: False
        show ?thesis
          using "5.IH"(2)[OF KBox False False2 m] v KBox False nil False2 ts
          by (simp add: split_beta)
      qed
    qed
  next
    case (KStack s)
    show ?thesis using "5.IH"(3)[OF KStack m] v KStack by (simp add: split_beta)
  next
    case (KGrid g)
    then show ?thesis using v len by simp
  next
    case (KScrollView s)
    show ?thesis
    proof (cases cs)
      case Nil
      then show ?thesis using v KScrollView nil by simp
    next
      case (Cons c rest)
      then obtain c' rest' where cs': "cs' = c' # rest'" and c: "clearMeasured c = clearMeasured c'"
        using m by (cases cs') auto
      show ?thesis
      proof (cases "sv_scrollDir s = Horizontal")
        case True
        show ?thesis
          using "5.IH"(4)[OF KScrollView Cons True c] v KScrollView Cons cs' True
          by (simp add: split_beta)
      next
        case False
        show ?thesis
          using "5.IH"(5)[OF KScrollView Cons False c] v KScrollView Cons cs' False
          by (simp add: split_beta)
      qed
    qed
  next
    case (KSidebar s)
    then show ?thesis using v by simp
  qed
next
  case (6 childAvailable result)
  then show ?case by simp
next
  case (7 c cs childAvailable result)
  from "7.prems" obtain c' cs'' where cs': "cs' = c' # cs''"
    and c: "clearMeasured c = clearMeasured c'" and m: "map clearMeasured cs = map clearMeasured cs''"
    by (cases cs') auto
  obtain sz v where mc: "Widget_measure c childAvailable = (sz, v)"
    by (cases "Widget_measure c childAvailable")
  have e: "fst (Widget_measure c' childAvailable) = sz" using "7.IH"(1)[OF c] mc by simp
  show ?case
    using "7.IH"(2)[OF mc[symmetric] m] mc e cs' by (simp add: split_beta)
next
  case (8 childAvailable result)
  then show ?case by simp
next
  case (9 c cs childAvailable result)
  from "9.prems" obtain c' cs'' where cs': "cs1' = c' # cs''"
    and c: "clearMeasured c = clearMeasured c'" and m: "map clearMeasured cs = map clearMeasured cs''"
    by (cases cs1') auto
  obtain sz v where mc: "Widget_measure c childAvailable = (sz, v)"
    by (cases "Widget_measure c childAvailable")
  have e: "fst (Widget_measure c' childAvailable) = sz" using "9.IH"(1)[OF c] mc by simp
  show ?case
    using "9.IH"(2)[OF mc[symmetric] m] mc e cs' by (simp add: split_beta)
next
  case (10 available result)
  then show ?case by simp
next
  case (11 c cs available result)
  from "11.prems" obtain c' cs'' where cs': "cs2' = c' # cs''"
    and c: "clearMeasured c = clearMeasured c'" and m: "map clearMeasured cs = map clearMeasured cs''"
    by (cases cs2') auto
  obtain sz v where mc: "Widget_measure c available = (sz, v)"
    by (cases "Widget_measure c available")
  have e: "fst (Widget_measure c' available) = sz" using "11.IH"(1)[OF c] mc by simp
  show ?case
    using "11.IH"(2)[OF mc[symmetric] m] mc e cs' by (simp add: split_beta)
qed

lemma measureContent_base [simp]: "base (snd (measureContent w a)) = base w"
proof (cases w)
  case (Leaf v k)
  then show ?thesis by simp
next
  case (Node v k cs)
  then show ?thesis by (cases k) (simp_all add: split_beta split: list.splits)
qed

lemma resolveWidth_base [simp]: "base (snd (resolveWidth w a)) = base w"
  by (cases "spec_constraint (widthSpec (base w))") (simp_all add: resolveWidth.simps split_beta)

lemma resolveHeight_base [simp]: "base (snd (resolveHeight w a)) = base w"
  by (cases "spec_constraint (heightSpec (base w))") (simp_all add: resolveHeight.simps split_beta)

lemma base_set_base [simp]: "base (set_base w b) = b"
  by (cases w) simp_all

lemma applyMargin_mkSize:
  "applyMargin b available =
     mkSize (s_width available - horizontal (margin (style b)))
            (s_height available - vertical (margin (style b)))"
  by (simp add: applyMargin_def mkSize_def)

lemma applyMargin_sel [simp]:
  "s_width (applyMargin b available) = s_width available - horizontal (margin (style b))"
  "s_height (applyMargin b available) = s_height available - vertical (margin (style b))"
  by (simp_all add: applyMargin_def)

text \<open>
  Claim C2 (the resolution rules of measure). For every visible widget and every available
  size, \<^verbatim>\<open>measure\<close> subtracts the margin of the style from the available size and resolves
  each axis on its own from the SizeSpec of that axis: Fixed gives the value of the spec,
  Fill the margin-adjusted available extent, Percent that extent times value/100, and
  Content the extent of \<^verbatim>\<open>measureContent\<close> (called with the margin-adjusted size) plus the
  padding of that axis. The result is returned and stored in \<^verbatim>\<open>measuredSize_\<close>; no other
  member of the widget changes, and the margin is not part of the result.
\<close>

theorem Widget_measure_resolves:
  assumes "visible (base w)"
  shows "fst (Widget_measure w available)
           = mkSize (resolvedWidth w available) (resolvedHeight w available)
       \<and> base (snd (Widget_measure w available))
           = (base w)\<lparr>measuredSize := mkSize (resolvedWidth w available) (resolvedHeight w available)\<rparr>"
proof -
  let ?av = "applyMargin (base w) available"
  obtain rw w1 where rw: "resolveWidth w ?av = (rw, w1)" by (cases "resolveWidth w ?av")
  obtain rh w2 where rh: "resolveHeight w1 ?av = (rh, w2)" by (cases "resolveHeight w1 ?av")
  have b1: "base w1 = base w" using resolveWidth_base[of w ?av] rw by simp
  have b2: "base w2 = base w" using resolveHeight_base[of w1 ?av] rh b1 by simp
  have c1: "clearMeasured w1 = clearMeasured w" using measure_clearMeasured(2)[of w ?av] rw by simp
  have w_eq: "rw = resolvedWidth w available"
    using rw
    by (cases "spec_constraint (widthSpec (base w))")
       (auto simp add: resolveWidth.simps resolvedWidth_def applyMargin_mkSize[symmetric]
          split_beta)
  have "rh = fst (resolveHeight w ?av)"
    using measure_independent(3)[OF c1, of ?av] rh by simp
  then have h_eq: "rh = resolvedHeight w available"
    by (cases "spec_constraint (heightSpec (base w))")
       (auto simp add: resolveHeight.simps resolvedHeight_def applyMargin_mkSize[symmetric]
          split_beta)
  show ?thesis
    using assms rw rh b2 w_eq h_eq by (simp add: Widget_measure.simps)
qed

theorem Widget_measure_resolves_witness:
  "visible (base (Button_init ''OK''))
   \<and> fst (Widget_measure (Button_init ''OK'') (mkSize 500 400)) = mkSize (484 / 5) (298 / 5)
   \<and> measuredSize (base (snd (Widget_measure (Button_init ''OK'') (mkSize 500 400))))
       = mkSize (484 / 5) (298 / 5)"
proof -
  have v: "visible (base (Button_init ''OK''))"
    by (simp add: Button_init_def Widget_init_def)
  have rw: "resolvedWidth (Button_init ''OK'') (mkSize 500 400) = 484 / 5"
    by (simp add: resolvedWidth_def Button_init_def Widget_init_def BoxStyle_init_def
          TextStyle_init_def leaf_measureContent_def mkSize_def mkPadding_def horizontal_def)
  have rh: "resolvedHeight (Button_init ''OK'') (mkSize 500 400) = 298 / 5"
    by (simp add: resolvedHeight_def Button_init_def Widget_init_def BoxStyle_init_def
          TextStyle_init_def leaf_measureContent_def mkSize_def mkPadding_def vertical_def)
  note th = Widget_measure_resolves[OF v, of "mkSize 500 400", unfolded rw rh]
  have "measuredSize (base (snd (Widget_measure (Button_init ''OK'') (mkSize 500 400))))
       = mkSize (484 / 5) (298 / 5)"
    using th[THEN conjunct2] by simp
  then show ?thesis using v th[THEN conjunct1] by (intro conjI)
qed

end
